theory Spec2Isabelle
  imports Main "HOL-Library.Word"
begin

section \<open>Error codes and return values\<close>

text \<open>
  Error codes are C \<open>int\<close>s; zero is success. The named codes used by
  \<open>strutil.c\<close> and \<open>connection.c\<close> come from the enumeration of the common
  library (not part of the sources at hand) and from \<open>aws_http_errors\<close> in
  \<open>http.h\<close>. They are kept symbolic: \<open>AWS_ERROR_SUCCESS\<close> is the code 0, every
  other constructor is a non-zero code, and \<open>AWS_ERROR_OTHER n\<close> stands for any
  further non-zero code a collaborator may report.
\<close>

datatype aws_error =
    AWS_ERROR_SUCCESS
  | AWS_ERROR_UNKNOWN
  | AWS_ERROR_OVERFLOW_DETECTED
  | AWS_ERROR_INVALID_ARGUMENT
  | AWS_ERROR_INVALID_STATE
  | AWS_ERROR_HTTP_CONNECTION_CLOSED
  | AWS_ERROR_HTTP_UNSUPPORTED_PROTOCOL
  | AWS_ERROR_HTTP_REACTION_REQUIRED
  | AWS_ERROR_OTHER nat

text \<open>
  \<open>aws_raise_error e\<close> records \<open>e\<close> as the thread's last error and returns
  \<open>AWS_OP_ERR\<close>; a function that ends with it returns \<open>AWS_OP_ERR e\<close> here.
\<close>

datatype op_result = AWS_OP_SUCCESS | AWS_OP_ERR aws_error

section \<open>String utilities (\<open>strutil.c\<close>)\<close>

type_synonym u8 = "8 word"
type_synonym u64 = "64 word"

text \<open>A byte cursor's contents are a list of bytes; \<open>of_char\<close> is the byte's value.\<close>

definition s_ascii_to_num_table :: "u8 list" where
  "s_ascii_to_num_table = [
    255, 255, 255, 255, 255, 255, 255, 255, 255, 255, 255, 255, 255, 255, 255, 255, 255, 255, 255, 255, 255, 255, 255,
    255, 255, 255, 255, 255, 255, 255, 255, 255, 255, 255, 255, 255, 255, 255, 255, 255, 255, 255, 255, 255, 255, 255,
    255, 255,
    0, 1, 2, 3, 4, 5, 6, 7, 8, 9,
    255, 255, 255, 255, 255, 255, 255,
    0xA, 0xB, 0xC, 0xD, 0xE, 0xF,
    255, 255, 255, 255, 255, 255, 255, 255, 255, 255, 255, 255, 255, 255, 255, 255, 255, 255, 255, 255, 255, 255, 255,
    255, 255, 255,
    0xa, 0xb, 0xc, 0xd, 0xe, 0xf,
    255, 255, 255, 255, 255, 255, 255, 255, 255, 255, 255, 255, 255, 255, 255, 255, 255, 255, 255, 255, 255, 255, 255,
    255, 255, 255, 255, 255, 255, 255, 255, 255, 255, 255, 255, 255, 255, 255, 255, 255, 255, 255, 255, 255, 255, 255,
    255, 255, 255, 255, 255, 255, 255, 255, 255, 255, 255, 255, 255, 255, 255, 255, 255, 255, 255, 255, 255, 255, 255,
    255, 255, 255, 255, 255, 255, 255, 255, 255, 255, 255, 255, 255, 255, 255, 255, 255, 255, 255, 255, 255, 255, 255,
    255, 255, 255, 255, 255, 255, 255, 255, 255, 255, 255, 255, 255, 255, 255, 255, 255, 255, 255, 255, 255, 255, 255,
    255, 255, 255, 255, 255, 255, 255, 255, 255, 255, 255, 255, 255, 255, 255, 255, 255, 255, 255, 255, 255, 255, 255,
    255, 255, 255, 255, 255, 255, 255, 255, 255, 255, 255, 255, 255, 255, 255]"

text \<open>
  The loop of \<open>s_read_unsigned\<close>, reading from left to right with the running
  \<open>val\<close>. Each of its three early returns is an \<open>Inl\<close>.
\<close>

fun s_read_unsigned_loop :: "string \<Rightarrow> u64 \<Rightarrow> u8 \<Rightarrow> aws_error + u64" where
  "s_read_unsigned_loop [] val base = Inr val"
| "s_read_unsigned_loop (c # cs) val base =
     (let cval = s_ascii_to_num_table ! of_char c in
      if cval \<ge> base then Inl AWS_ERROR_INVALID_ARGUMENT
      else
        let prev_val = val;
            val1 = val * ucast base
        in if val1 < prev_val then Inl AWS_ERROR_OVERFLOW_DETECTED
           else
             let val2 = val1 + ucast cval
             in if val2 < prev_val then Inl AWS_ERROR_OVERFLOW_DETECTED
                else s_read_unsigned_loop cs val2 base)"

text \<open>
  \<open>s_read_unsigned\<close> returns its code together with the final \<open>*dst\<close>, which is
  cleared on entry and written only on success.
\<close>

definition s_read_unsigned :: "string \<Rightarrow> u8 \<Rightarrow> op_result \<times> u64" where
  "s_read_unsigned cursor base =
     (if length cursor = 0 then (AWS_OP_ERR AWS_ERROR_INVALID_ARGUMENT, 0)
      else case s_read_unsigned_loop cursor 0 base of
             Inl e \<Rightarrow> (AWS_OP_ERR e, 0)
           | Inr val \<Rightarrow> (AWS_OP_SUCCESS, val))"

definition aws_strutil_read_unsigned_num :: "string \<Rightarrow> op_result \<times> u64" where
  "aws_strutil_read_unsigned_num cursor = s_read_unsigned cursor 10"

definition aws_strutil_read_unsigned_hex :: "string \<Rightarrow> op_result \<times> u64" where
  "aws_strutil_read_unsigned_hex cursor = s_read_unsigned cursor 16"


text \<open>
  Reference reading of a digit string, following the specification's wording and
  independent of the lookup table: \<open>'0'..'9'\<close> are the digits 0 to 9,
  \<open>'A'..'F'\<close> and \<open>'a'..'f'\<close> the digits 10 to 15, every other byte is no
  digit (255). A byte is a digit of the base when its digit value is below the base,
  and the numeric value of a string is read left to right, without any bound.
\<close>

definition spec_digit_value :: "nat \<Rightarrow> nat" where
  "spec_digit_value n =
     (if 48 \<le> n \<and> n \<le> 57 then n - 48
      else if 65 \<le> n \<and> n \<le> 70 then n - 55
      else if 97 \<le> n \<and> n \<le> 102 then n - 87
      else 255)"

definition is_digit :: "nat \<Rightarrow> char \<Rightarrow> bool" where
  "is_digit base c = (spec_digit_value (of_char c) < base)"

definition digits_value_from :: "nat \<Rightarrow> nat \<Rightarrow> string \<Rightarrow> nat" where
  "digits_value_from base a cs = foldl (\<lambda>acc c. acc * base + spec_digit_value (of_char c)) a cs"

definition digits_value :: "nat \<Rightarrow> string \<Rightarrow> nat" where
  "digits_value base cs = digits_value_from base 0 cs"

subsection \<open>Trimming\<close>

text \<open>
  A cursor is a view (\<open>ptr\<close>, \<open>len\<close>) into memory; \<open>mem\<close> gives the byte at each
  address. \<open>s_trim\<close> moves the two ends of the view and never writes memory. A trim
  table is indexed by the byte's value.
\<close>

record aws_byte_cursor =
  len :: nat
  ptr :: nat

function s_trim_leading :: "(nat \<Rightarrow> char) \<Rightarrow> aws_byte_cursor \<Rightarrow> (nat \<Rightarrow> bool) \<Rightarrow> nat \<Rightarrow> nat" where
  "s_trim_leading mem cursor trim_table i =
     (if i < len cursor then
        (let c = mem (ptr cursor + i) in
         if \<not> trim_table (of_char c) then i
         else s_trim_leading mem cursor trim_table (i + 1))
      else i)"
  by pat_completeness auto
termination
  by (relation "measure (\<lambda>(mem, cursor, trim_table, i). len cursor - i)") auto

function s_trim_trailing :: "(nat \<Rightarrow> char) \<Rightarrow> aws_byte_cursor \<Rightarrow> (nat \<Rightarrow> bool) \<Rightarrow> aws_byte_cursor" where
  "s_trim_trailing mem cursor trim_table =
     (if len cursor \<noteq> 0 then
        (let c = mem (ptr cursor + (len cursor - 1)) in
         if \<not> trim_table (of_char c) then cursor
         else s_trim_trailing mem (cursor\<lparr>len := len cursor - 1\<rparr>) trim_table)
      else cursor)"
  by pat_completeness auto
termination
  by (relation "measure (\<lambda>(mem, cursor, trim_table). len cursor)") auto

definition s_trim :: "(nat \<Rightarrow> char) \<Rightarrow> aws_byte_cursor \<Rightarrow> (nat \<Rightarrow> bool) \<Rightarrow> aws_byte_cursor" where
  "s_trim mem cursor trim_table =
     (let i = s_trim_leading mem cursor trim_table 0;
          cursor1 = cursor\<lparr>ptr := ptr cursor + i, len := len cursor - i\<rparr>
      in s_trim_trailing mem cursor1 trim_table)"

definition s_http_whitespace_table :: "nat \<Rightarrow> bool" where
  "s_http_whitespace_table n = (n = of_char (CHR '' '') \<or> n = of_char (CHR 0x09))"

definition aws_strutil_trim_http_whitespace :: "(nat \<Rightarrow> char) \<Rightarrow> aws_byte_cursor \<Rightarrow> aws_byte_cursor" where
  "aws_strutil_trim_http_whitespace mem cursor = s_trim mem cursor s_http_whitespace_table"

text \<open>The bytes a cursor views, and the cursor over a whole string stored at address 0.\<close>

definition cursor_bytes :: "(nat \<Rightarrow> char) \<Rightarrow> aws_byte_cursor \<Rightarrow> string" where
  "cursor_bytes mem cursor = map (\<lambda>i. mem (ptr cursor + i)) [0..<len cursor]"

definition mem_of_string :: "string \<Rightarrow> nat \<Rightarrow> char" where
  "mem_of_string s a = (if a < length s then s ! a else CHR 0x00)"

definition cursor_of_string :: "string \<Rightarrow> aws_byte_cursor" where
  "cursor_of_string s = \<lparr>len = length s, ptr = 0\<rparr>"

definition is_http_whitespace :: "char \<Rightarrow> bool" where
  "is_http_whitespace c = (c = CHR '' '' \<or> c = CHR 0x09)"

section \<open>Connections and servers (\<open>connection.c\<close>)\<close>

text \<open>
  Pointers to channels, user data and callbacks are opaque identities. A nullable
  pointer is an \<open>option\<close>. The calls into the channel runtime, the bootstrap and
  user code are recorded, in order, in a list of events; the event of a user callback
  keeps its connection and error-code arguments.
\<close>

type_synonym channel = nat
type_synonym user_ptr = nat
type_synonym fn_ptr = nat

datatype aws_http_version =
    AWS_HTTP_VERSION_UNKNOWN
  | AWS_HTTP_VERSION_1_0
  | AWS_HTTP_VERSION_1_1
  | AWS_HTTP_VERSION_2

text \<open>A failed fatal assertion, or a dereferenced null pointer, ends the process.\<close>

datatype 'a outcome = Aborted | Done 'a

record http_server_data =
  on_incoming_request :: "fn_ptr option"
  on_shutdown :: "fn_ptr option"

text \<open>
  The fields of \<open>struct aws_http_connection\<close> that \<open>connection.c\<close> reads or writes.
  \<open>channel_slot\<close> is the channel of the slot the connection sits in
  (\<open>connection->channel_slot->channel\<close>); \<open>client_data\<close> records only whether the
  pointer is set.
\<close>

record aws_http_connection =
  channel_slot :: channel
  http_version :: aws_http_version
  proxy_request_transform :: "fn_ptr option"
  user_data :: "user_ptr option"
  refcount :: u64
  client_data :: bool
  server_data :: "http_server_data option"

datatype event =
    Channel_shutdown channel aws_error
  | Channel_acquire_hold channel
  | Channel_release_hold channel
  | Channel_slot_remove channel
  | Channel_handler_destroy
  | On_incoming_connection "aws_http_connection option" aws_error
  | On_setup "aws_http_connection option" aws_error
  | On_shutdown "aws_http_connection option" aws_error
  | Bootstrap_mem_release
  | Mutex_lock
  | Mutex_unlock
  | Destroy_socket_listener

record world =
  last_error :: aws_error
  events :: "event list"

definition emit :: "event \<Rightarrow> world \<Rightarrow> world" where
  "emit e w = w\<lparr>events := events w @ [e]\<rparr>"

definition aws_raise_error :: "aws_error \<Rightarrow> world \<Rightarrow> world" where
  "aws_raise_error e w = w\<lparr>last_error := e\<rparr>"

subsection \<open>The connection factory\<close>

text \<open>
  What the channel runtime and the protocol engine answer during one run of the
  factory: for each fallible call, the error it fails with, if any;
  \<open>left_handler_protocol\<close> is \<open>None\<close> when there is no slot or no handler
  immediately to the left of the new slot, and otherwise the byte buffer that
  \<open>aws_tls_handler_protocol\<close> returns for that handler;
  \<open>slot_handler_after_set\<close> tells whether the slot's handler pointer is set after
  a failed \<open>aws_channel_slot_set_handler\<close>.
\<close>

record channel_env =
  slot_new_fails :: "aws_error option"
  slot_insert_fails :: "aws_error option"
  left_handler_protocol :: "string option"
  connection_new_fails :: "aws_error option"
  set_handler_fails :: "aws_error option"
  slot_handler_after_set :: bool

text \<open>
  Modelled from the spec: the HTTP/1.1 engine constructors
  (\<open>aws_http_connection_new_http1_1_server\<close> and \<open>_client\<close>, in
  \<open>h1_connection.c\<close>) are not among the sources. Per the specification (sections 3
  and 4.5) a new connection has refcount 1, its version tag, exactly one of
  \<open>client_data\<close> and \<open>server_data\<close> populated, and no callback installed. Its
  slot is bound afterwards, by the factory.
\<close>

definition aws_http_connection_new_http1_1 :: "bool \<Rightarrow> nat \<Rightarrow> aws_http_connection" where
  "aws_http_connection_new_http1_1 is_server initial_window_size =
     \<lparr>channel_slot = 0,
      http_version = AWS_HTTP_VERSION_1_1,
      proxy_request_transform = None,
      user_data = None,
      refcount = 1,
      client_data = (\<not> is_server),
      server_data = (if is_server
                     then Some \<lparr>on_incoming_request = None, on_shutdown = None\<rparr>
                     else None)\<rparr>"

text \<open>
  The block ``Determine HTTP version'' of \<open>s_connection_new\<close>: the version, or the
  error raised when TLS is in use and no handler is found to the left.
\<close>

definition s_connection_new_version :: "bool \<Rightarrow> string option \<Rightarrow> aws_error + aws_http_version" where
  "s_connection_new_version is_using_tls left_handler =
     (if is_using_tls then
        (case left_handler of
           None \<Rightarrow> Inl AWS_ERROR_INVALID_STATE
         | Some protocol \<Rightarrow>
             if length protocol \<noteq> 0 then
               (if protocol = ''http/1.1'' then Inr AWS_HTTP_VERSION_1_1
                else if protocol = ''h2'' then Inr AWS_HTTP_VERSION_2
                else Inr AWS_HTTP_VERSION_1_1)
             else Inr AWS_HTTP_VERSION_1_1)
      else Inr AWS_HTTP_VERSION_1_1)"

text \<open>
  The \<open>error:\<close> label of \<open>s_connection_new\<close>; \<open>have_slot\<close> tells whether the slot
  was created, \<open>slot_handler\<close> whether its handler pointer is set.
\<close>

definition s_connection_new_error ::
  "channel \<Rightarrow> bool \<Rightarrow> bool \<Rightarrow> aws_http_connection option \<Rightarrow> world \<Rightarrow> world" where
  "s_connection_new_error channel have_slot slot_handler connection w =
     (if have_slot then
        emit (Channel_slot_remove channel)
          (if \<not> slot_handler \<and> connection \<noteq> None then emit Channel_handler_destroy w else w)
      else w)"

definition s_connection_new ::
  "channel_env \<Rightarrow> channel \<Rightarrow> bool \<Rightarrow> bool \<Rightarrow> nat \<Rightarrow> world
     \<Rightarrow> (aws_http_connection option \<times> world) outcome" where
  "s_connection_new env channel is_server is_using_tls initial_window_size w =
     (case slot_new_fails env of
        Some e \<Rightarrow> Done (None, s_connection_new_error channel False False None (aws_raise_error e w))
      | None \<Rightarrow>
     (case slot_insert_fails env of
        Some e \<Rightarrow> Done (None, s_connection_new_error channel True False None (aws_raise_error e w))
      | None \<Rightarrow>
     (case s_connection_new_version is_using_tls (left_handler_protocol env) of
        Inl e \<Rightarrow> Done (None, s_connection_new_error channel True False None (aws_raise_error e w))
      | Inr version \<Rightarrow>
     (case version of
        AWS_HTTP_VERSION_1_1 \<Rightarrow>
          (case connection_new_fails env of
             Some e \<Rightarrow>
               Done (None, s_connection_new_error channel True False None (aws_raise_error e w))
           | None \<Rightarrow>
               (let connection = aws_http_connection_new_http1_1 is_server initial_window_size in
                case set_handler_fails env of
                  Some e \<Rightarrow>
                    Done (None, s_connection_new_error channel True (slot_handler_after_set env)
                                  (Some connection) (aws_raise_error e w))
                | None \<Rightarrow>
                    Done (Some (connection\<lparr>channel_slot := channel\<rparr>),
                          emit (Channel_acquire_hold channel) w)))
      | AWS_HTTP_VERSION_2 \<Rightarrow> Aborted
      | _ \<Rightarrow>
          Done (None, s_connection_new_error channel True False None
                        (aws_raise_error AWS_ERROR_HTTP_UNSUPPORTED_PROTOCOL w))))))"

subsection \<open>Reference counting\<close>

text \<open>
  \<open>AWS_ASSERT\<close> is checked in debug builds only; \<open>debug_build\<close> tells whether it
  is. The atomic fetch-and-subtract is one step: it returns the previous count and
  stores the decremented one, wrapping at zero.
\<close>

definition aws_http_connection_acquire :: "aws_http_connection \<Rightarrow> aws_http_connection" where
  "aws_http_connection_acquire connection = connection\<lparr>refcount := refcount connection + 1\<rparr>"

definition aws_http_connection_release ::
  "bool \<Rightarrow> aws_http_connection \<Rightarrow> world \<Rightarrow> (aws_http_connection \<times> world) outcome" where
  "aws_http_connection_release debug_build connection w =
     (let prev_refcount = refcount connection;
          connection1 = connection\<lparr>refcount := refcount connection - 1\<rparr>
      in if prev_refcount = 1 then
           Done (connection1,
                 emit (Channel_release_hold (channel_slot connection))
                   (emit (Channel_shutdown (channel_slot connection) AWS_ERROR_SUCCESS) w))
         else if debug_build \<and> prev_refcount = 0 then Aborted
         else Done (connection1, w))"

subsection \<open>Configuring a server connection\<close>

record aws_http_server_connection_options =
  connection_user_data :: "user_ptr option"
  opt_on_incoming_request :: "fn_ptr option"
  opt_on_shutdown :: "fn_ptr option"

text \<open>
  The result is the return code and the connection as the call leaves it (\<open>None\<close>
  for a null \<open>connection\<close> argument).
\<close>

definition aws_http_connection_configure_server ::
  "aws_http_connection option \<Rightarrow> aws_http_server_connection_options option
     \<Rightarrow> op_result \<times> aws_http_connection option" where
  "aws_http_connection_configure_server connection options =
     (case connection of
        None \<Rightarrow> (AWS_OP_ERR AWS_ERROR_INVALID_ARGUMENT, connection)
      | Some conn \<Rightarrow>
     (case options of
        None \<Rightarrow> (AWS_OP_ERR AWS_ERROR_INVALID_ARGUMENT, connection)
      | Some opts \<Rightarrow>
          if opt_on_incoming_request opts = None then
            (AWS_OP_ERR AWS_ERROR_INVALID_ARGUMENT, connection)
          else
            (case server_data conn of
               None \<Rightarrow> (AWS_OP_ERR AWS_ERROR_INVALID_STATE, connection)
             | Some sd \<Rightarrow>
                 if on_incoming_request sd \<noteq> None then
                   (AWS_OP_ERR AWS_ERROR_INVALID_STATE, connection)
                 else
                   (AWS_OP_SUCCESS,
                    Some (conn\<lparr>user_data := connection_user_data opts,
                               server_data :=
                                 Some (sd\<lparr>on_incoming_request := opt_on_incoming_request opts,
                                          on_shutdown := opt_on_shutdown opts\<rparr>)\<rparr>)))))"

subsection \<open>The server\<close>

text \<open>
  The registry \<open>channel_to_connection_map\<close> is a hash table keyed by channel; it is
  kept as an association list whose order stands for the order in which the table's
  iterator visits the entries.
\<close>

record aws_http_server =
  srv_is_using_tls :: bool
  srv_initial_window_size :: nat
  is_shutting_down :: bool
  channel_to_connection_map :: "(channel \<times> aws_http_connection) list"

fun hash_table_put :: "(channel \<times> 'v) list \<Rightarrow> channel \<Rightarrow> 'v \<Rightarrow> (channel \<times> 'v) list" where
  "hash_table_put [] k v = [(k, v)]"
| "hash_table_put ((k', v') # m) k v =
     (if k' = k then (k, v) # m else (k', v') # hash_table_put m k v)"

text \<open>The \<open>error:\<close> label of the accept callback.\<close>

definition s_server_bootstrap_on_accept_channel_setup_error ::
  "bool \<Rightarrow> aws_http_server \<Rightarrow> aws_error \<Rightarrow> channel option \<Rightarrow> aws_http_connection option
     \<Rightarrow> bool \<Rightarrow> world \<Rightarrow> (aws_http_server \<times> aws_http_connection option \<times> world) outcome" where
  "s_server_bootstrap_on_accept_channel_setup_error debug_build server error_code channel connection
       user_cb_invoked w =
     (let error_code1 = (if error_code = AWS_ERROR_SUCCESS then last_error w else error_code);
          w1 = (if \<not> user_cb_invoked then emit (On_incoming_connection None error_code1) w else w);
          w2 = (case channel of
                  Some ch \<Rightarrow> emit (Channel_shutdown ch error_code1) w1
                | None \<Rightarrow> w1)
      in case connection of
           Some conn \<Rightarrow>
             (case aws_http_connection_release debug_build conn w2 of
                Aborted \<Rightarrow> Aborted
              | Done (conn1, w3) \<Rightarrow> Done (server, Some conn1, w3))
         | None \<Rightarrow> Done (server, None, w2))"

text \<open>
  \<open>user_cb\<close> is what the user's \<open>on_incoming_connection\<close> callback does to the
  connection it is handed (typically \<open>aws_http_connection_configure_server\<close>);
  \<open>put_fails\<close> is the error of a failing \<open>aws_hash_table_put\<close>, if any. The result
  is the server, the connection (if one was created) and the world after the
  callback returns. A null channel reported with code 0 is dereferenced by the slot
  creation, and so is a null \<open>server_data\<close> by the check that follows the user
  callback.
\<close>

definition s_server_bootstrap_on_accept_channel_setup ::
  "bool \<Rightarrow> channel_env \<Rightarrow> aws_error option \<Rightarrow> (aws_http_connection \<Rightarrow> aws_http_connection)
     \<Rightarrow> aws_http_server \<Rightarrow> aws_error \<Rightarrow> channel option \<Rightarrow> world
     \<Rightarrow> (aws_http_server \<times> aws_http_connection option \<times> world) outcome" where
  "s_server_bootstrap_on_accept_channel_setup debug_build env put_fails user_cb server error_code channel w =
     (if error_code \<noteq> AWS_ERROR_SUCCESS then
        s_server_bootstrap_on_accept_channel_setup_error debug_build server error_code channel None False w
      else
        case channel of
          None \<Rightarrow> Aborted
        | Some ch \<Rightarrow>
        (case s_connection_new env ch True (srv_is_using_tls server) (srv_initial_window_size server) w of
           Aborted \<Rightarrow> Aborted
         | Done (None, w1) \<Rightarrow>
             s_server_bootstrap_on_accept_channel_setup_error debug_build server error_code channel None False w1
         | Done (Some connection, w1) \<Rightarrow>
             (let w2 = emit Mutex_lock w1;
                  error_code1 = (if is_shutting_down server then AWS_ERROR_HTTP_CONNECTION_CLOSED
                                 else error_code);
                  put_err = (error_code1 = AWS_ERROR_SUCCESS \<and> put_fails \<noteq> None);
                  server1 = (if error_code1 = AWS_ERROR_SUCCESS \<and> put_fails = None
                             then server\<lparr>channel_to_connection_map :=
                                    hash_table_put (channel_to_connection_map server) ch connection\<rparr>
                             else server);
                  w3 = (case put_fails of
                          Some e \<Rightarrow> if error_code1 = AWS_ERROR_SUCCESS then aws_raise_error e w2 else w2
                        | None \<Rightarrow> w2);
                  w4 = emit Mutex_unlock w3
              in if error_code1 \<noteq> AWS_ERROR_SUCCESS then
                   s_server_bootstrap_on_accept_channel_setup_error debug_build server1 error_code1 channel
                     (Some connection) False w4
                 else if put_err then
                   s_server_bootstrap_on_accept_channel_setup_error debug_build server1 error_code1 channel
                     (Some connection) False w4
                 else
                   (let w5 = emit (On_incoming_connection (Some connection) AWS_ERROR_SUCCESS) w4;
                        connection1 = user_cb connection
                    in case server_data connection1 of
                         None \<Rightarrow> Aborted
                       | Some sd \<Rightarrow>
                           if on_incoming_request sd = None then
                             s_server_bootstrap_on_accept_channel_setup_error debug_build server1 error_code1
                               channel (Some connection1) True
                               (aws_raise_error AWS_ERROR_HTTP_REACTION_REQUIRED w5)
                           else Done (server1, Some connection1, w5)))))"

text \<open>The loop of \<open>aws_http_server_release\<close> over the registry.\<close>

fun shutdown_all_channels :: "(channel \<times> aws_http_connection) list \<Rightarrow> world \<Rightarrow> world" where
  "shutdown_all_channels [] w = w"
| "shutdown_all_channels ((channel, connection) # rest) w =
     shutdown_all_channels rest (emit (Channel_shutdown channel AWS_ERROR_HTTP_CONNECTION_CLOSED) w)"

definition aws_http_server_release ::
  "aws_http_server option \<Rightarrow> world \<Rightarrow> aws_http_server option \<times> world" where
  "aws_http_server_release server w =
     (case server of
        None \<Rightarrow> (None, w)
      | Some srv \<Rightarrow>
          (let w1 = emit Mutex_lock w;
               already_shutting_down = is_shutting_down srv;
               srv1 = (if is_shutting_down srv then srv else srv\<lparr>is_shutting_down := True\<rparr>);
               w2 = (if \<not> already_shutting_down
                     then shutdown_all_channels (channel_to_connection_map srv1) w1
                     else w1);
               w3 = emit Mutex_unlock w2
           in if already_shutting_down then (Some srv1, w3)
              else (Some srv1, emit Destroy_socket_listener w3)))"

subsection \<open>The client connect path\<close>

record aws_http_client_bootstrap =
  bs_is_using_tls :: bool
  bs_initial_window_size :: nat
  bs_user_data :: "user_ptr option"
  bs_on_setup :: "fn_ptr option"
  bs_on_shutdown :: "fn_ptr option"
  bs_proxy_request_transform :: "fn_ptr option"
  bs_connection :: "aws_http_connection option"

text \<open>
  The result of the setup callback is the bootstrap record, or \<open>None\<close> once it has
  been freed, and the world. Calling the null \<open>on_setup\<close> pointer ends the process.
\<close>

definition s_client_bootstrap_on_channel_setup ::
  "channel_env \<Rightarrow> aws_http_client_bootstrap \<Rightarrow> aws_error \<Rightarrow> channel option \<Rightarrow> world
     \<Rightarrow> (aws_http_client_bootstrap option \<times> world) outcome" where
  "s_client_bootstrap_on_channel_setup env http_bootstrap error_code channel w =
     (if (error_code \<noteq> AWS_ERROR_SUCCESS) \<noteq> (channel = None) then Aborted
      else if error_code \<noteq> AWS_ERROR_SUCCESS then
        (case bs_on_setup http_bootstrap of
           None \<Rightarrow> Aborted
         | Some f \<Rightarrow> Done (None, emit Bootstrap_mem_release (emit (On_setup None error_code) w)))
      else
        case channel of
          None \<Rightarrow> Aborted
        | Some ch \<Rightarrow>
        (case s_connection_new env ch False (bs_is_using_tls http_bootstrap)
                (bs_initial_window_size http_bootstrap) w of
           Aborted \<Rightarrow> Aborted
         | Done (None, w1) \<Rightarrow>
             Done (Some (http_bootstrap\<lparr>bs_connection := None\<rparr>),
                   emit (Channel_shutdown ch (last_error w1)) w1)
         | Done (Some connection, w1) \<Rightarrow>
             (let connection1 = connection\<lparr>proxy_request_transform := bs_proxy_request_transform http_bootstrap,
                                            user_data := bs_user_data http_bootstrap\<rparr>
              in case bs_on_setup http_bootstrap of
                   None \<Rightarrow> Aborted
                 | Some f \<Rightarrow>
                     Done (Some (http_bootstrap\<lparr>bs_connection := Some connection1, bs_on_setup := None\<rparr>),
                           emit (On_setup (Some connection1) AWS_ERROR_SUCCESS) w1))))"

definition s_client_bootstrap_on_channel_shutdown ::
  "aws_http_client_bootstrap \<Rightarrow> aws_error \<Rightarrow> world \<Rightarrow> world" where
  "s_client_bootstrap_on_channel_shutdown http_bootstrap error_code w =
     (let w1 =
        (if bs_on_setup http_bootstrap \<noteq> None then
           (let error_code1 = (if error_code = AWS_ERROR_SUCCESS then AWS_ERROR_UNKNOWN else error_code)
            in emit (On_setup None error_code1) w)
         else if bs_on_shutdown http_bootstrap \<noteq> None then
           emit (On_shutdown (bs_connection http_bootstrap) error_code) w
         else w)
      in emit Bootstrap_mem_release w1)"

text \<open>
  The client bootstrap belongs to the I/O library. Its contract, as the specification
  (sections 4.7 and 6.1) and the comments in the two callbacks state it: one connect
  attempt either reports a failure, calling the setup callback once with no channel
  and a non-zero code, after which no shutdown callback follows; or it sets up a
  channel, calling the setup callback once with the channel and code 0, and later,
  when that channel's shutdown completes, the shutdown callback once with the code of
  the shutdown. \<open>client_connect_attempt\<close> runs the callbacks in that order.
\<close>

datatype connect_attempt =
    Connect_failed aws_error
  | Connected channel aws_error

definition client_connect_attempt ::
  "channel_env \<Rightarrow> aws_http_client_bootstrap \<Rightarrow> connect_attempt \<Rightarrow> world \<Rightarrow> world outcome" where
  "client_connect_attempt env http_bootstrap attempt w =
     (case attempt of
        Connect_failed error_code \<Rightarrow>
          (case s_client_bootstrap_on_channel_setup env http_bootstrap error_code None w of
             Aborted \<Rightarrow> Aborted
           | Done (_, w1) \<Rightarrow> Done w1)
      | Connected ch shutdown_code \<Rightarrow>
          (case s_client_bootstrap_on_channel_setup env http_bootstrap AWS_ERROR_SUCCESS (Some ch) w of
             Aborted \<Rightarrow> Aborted
           | Done (None, w1) \<Rightarrow> Done w1
           | Done (Some http_bootstrap1, w1) \<Rightarrow>
               Done (s_client_bootstrap_on_channel_shutdown http_bootstrap1 shutdown_code w1)))"

definition is_on_setup :: "event \<Rightarrow> bool" where
  "is_on_setup ev = (case ev of On_setup c e \<Rightarrow> True | _ \<Rightarrow> False)"

definition is_on_shutdown :: "event \<Rightarrow> bool" where
  "is_on_shutdown ev = (case ev of On_shutdown c e \<Rightarrow> True | _ \<Rightarrow> False)"

definition is_on_incoming_connection :: "event \<Rightarrow> bool" where
  "is_on_incoming_connection ev = (case ev of On_incoming_connection c e \<Rightarrow> True | _ \<Rightarrow> False)"

definition is_user_callback :: "event \<Rightarrow> bool" where
  "is_user_callback ev = (is_on_setup ev \<or> is_on_shutdown ev \<or> is_on_incoming_connection ev)"

section \<open>Concrete inputs\<close>

text \<open>
  The input of the specification's trimming scenario (blank, tab, \<open>ab\<close>, blank, tab,
  blank), a channel environment in which every call succeeds and no TLS handler is
  present, the same with a TLS handler that negotiated \<open>h2\<close>, an initial world, a
  client bootstrap record as \<open>aws_http_client_connect_internal\<close> fills it in, and a
  server with two registered channels.
\<close>

definition trim_scenario_input :: string where
  "trim_scenario_input = [CHR '' '', CHR 0x09, CHR ''a'', CHR ''b'', CHR '' '', CHR 0x09, CHR '' '']"

definition plain_env :: channel_env where
  "plain_env = \<lparr>slot_new_fails = None, slot_insert_fails = None, left_handler_protocol = None,
                connection_new_fails = None, set_handler_fails = None, slot_handler_after_set = True\<rparr>"

definition h2_env :: channel_env where
  "h2_env = plain_env\<lparr>left_handler_protocol := Some ''h2''\<rparr>"

definition empty_world :: world where
  "empty_world = \<lparr>last_error = AWS_ERROR_SUCCESS, events = []\<rparr>"

definition example_bootstrap :: "bool \<Rightarrow> fn_ptr option \<Rightarrow> aws_http_client_bootstrap" where
  "example_bootstrap tls shutdown_cb =
     \<lparr>bs_is_using_tls = tls, bs_initial_window_size = 65535, bs_user_data = Some 3,
      bs_on_setup = Some 1, bs_on_shutdown = shutdown_cb, bs_proxy_request_transform = None,
      bs_connection = None\<rparr>"

definition example_options :: aws_http_server_connection_options where
  "example_options = \<lparr>connection_user_data = Some 9, opt_on_incoming_request = Some 4,
                        opt_on_shutdown = Some 5\<rparr>"

definition example_server :: aws_http_server where
  "example_server =
     \<lparr>srv_is_using_tls = False, srv_initial_window_size = 65535, is_shutting_down = False,
      channel_to_connection_map =
        [(5, (aws_http_connection_new_http1_1 True 65535)\<lparr>channel_slot := 5\<rparr>),
         (6, (aws_http_connection_new_http1_1 True 65535)\<lparr>channel_slot := 6\<rparr>)]\<rparr>"

section \<open>Properties of the string utilities\<close>

subsection \<open>The lookup table\<close>

lemma table_map: "map unat s_ascii_to_num_table = map spec_digit_value [0..<256]"
  by code_simp

lemma table_nth:
  assumes "n < 256"
  shows "unat (s_ascii_to_num_table ! n) = spec_digit_value n"
proof -
  have len: "length s_ascii_to_num_table = 256"
    using arg_cong [OF table_map, of length] by simp
  have "map unat s_ascii_to_num_table ! n = map spec_digit_value [0..<256] ! n"
    by (simp only: table_map)
  with assms len show ?thesis by simp
qed

lemma of_char_lt_256: "(of_char c :: nat) < 256"
  by (cases c) (simp add: of_char_Char horner_sum_bit_eq_take_bit take_bit_eq_mod)

lemma table_char: "unat (s_ascii_to_num_table ! of_char c) = spec_digit_value (of_char c)"
  by (rule table_nth [OF of_char_lt_256])

lemma cval_ge_base: "(s_ascii_to_num_table ! of_char c \<ge> base) = (\<not> is_digit (unat base) c)"
  by (simp add: word_le_nat_alt table_char is_digit_def not_less)

lemma unat_ucast_u8_u64: "unat (ucast (b :: u8) :: u64) = unat b"
proof -
  have "uint (ucast b :: u64) = uint b"
    by (rule uint_up_ucast) (simp add: is_up)
  then show ?thesis by (simp only: unat_eq_nat_uint)
qed

subsection \<open>The parsing loop\<close>

lemma digits_value_from_Nil: "digits_value_from base a [] = a"
  by (simp add: digits_value_from_def)

lemma digits_value_from_Cons:
  "digits_value_from base a (c # cs) =
   digits_value_from base (a * base + spec_digit_value (of_char c)) cs"
  by (simp add: digits_value_from_def)

lemma digits_value_from_ge: "0 < base \<Longrightarrow> a \<le> digits_value_from base a cs"
proof (induction cs arbitrary: a)
  case Nil
  then show ?case by (simp add: digits_value_from_Nil)
next
  case (Cons c cs)
  have "a \<le> a * base" using Cons.prems by simp
  also have "\<dots> \<le> a * base + spec_digit_value (of_char c)" by simp
  also have "\<dots> \<le> digits_value_from base (a * base + spec_digit_value (of_char c)) cs"
    by (rule Cons.IH [OF Cons.prems])
  finally show ?case by (simp add: digits_value_from_Cons)
qed

text \<open>One iteration on a digit that does not overflow: no early return, exact arithmetic.\<close>

lemma loop_step:
  fixes val :: u64 and base :: u8
  assumes dig: "is_digit (unat base) c"
    and bnd: "unat val * unat base + spec_digit_value (of_char c) < 2 ^ 64"
    and pos: "0 < unat base"
  shows "s_read_unsigned_loop (c # cs) val base =
         s_read_unsigned_loop cs (val * ucast base + ucast (s_ascii_to_num_table ! of_char c)) base"
    and "unat (val * ucast base + ucast (s_ascii_to_num_table ! of_char c)) =
         unat val * unat base + spec_digit_value (of_char c)"
proof -
  let ?d = "spec_digit_value (of_char c)"
  let ?cval = "s_ascii_to_num_table ! of_char c"
  have m: "unat (val * ucast base) = unat val * unat base"
  proof -
    have "unat val * unat (ucast base :: u64) < 2 ^ LENGTH(64)"
      using bnd by (simp add: unat_ucast_u8_u64)
    then have "unat (val * ucast base) = unat val * unat (ucast base :: u64)"
      by (simp only: unat_mult_lem)
    then show ?thesis by (simp only: unat_ucast_u8_u64)
  qed
  show a: "unat (val * ucast base + ucast ?cval) = unat val * unat base + ?d"
  proof -
    have "unat (val * ucast base) + unat (ucast ?cval :: u64) < 2 ^ LENGTH(64)"
      using bnd by (simp add: m unat_ucast_u8_u64 table_char)
    then have "unat (val * ucast base + ucast ?cval) =
               unat (val * ucast base) + unat (ucast ?cval :: u64)"
      by (simp only: unat_add_lem)
    then show ?thesis by (simp only: m unat_ucast_u8_u64 table_char)
  qed
  have n1: "\<not> val * ucast base < val"
    using pos by (simp add: word_less_nat_alt m)
  have n2: "\<not> val * ucast base + ucast ?cval < val"
  proof -
    have "unat val \<le> unat val * unat base" using pos by simp
    then have "\<not> unat val * unat base + ?d < unat val" by linarith
    then show ?thesis by (simp add: word_less_nat_alt a)
  qed
  show "s_read_unsigned_loop (c # cs) val base =
         s_read_unsigned_loop cs (val * ucast base + ucast ?cval) base"
    using dig n1 n2 by (simp add: cval_ge_base Let_def)
qed

lemma loop_correct:
  fixes val :: u64 and base :: u8
  assumes "0 < unat base"
    and "\<forall>c\<in>set cs. is_digit (unat base) c"
    and "digits_value_from (unat base) (unat val) cs < 2 ^ 64"
  shows "s_read_unsigned_loop cs val base =
         Inr (of_nat (digits_value_from (unat base) (unat val) cs))"
  using assms
proof (induction cs arbitrary: val)
  case Nil
  then show ?case by (simp add: digits_value_from_Nil)
next
  case (Cons c cs)
  let ?v = "unat val * unat base + spec_digit_value (of_char c)"
  let ?w = "val * ucast base + ucast (s_ascii_to_num_table ! of_char c)"
  have dig: "is_digit (unat base) c" using Cons.prems(2) by simp
  have le: "?v \<le> digits_value_from (unat base) ?v cs"
    by (rule digits_value_from_ge [OF Cons.prems(1)])
  have bnd: "?v < 2 ^ 64"
    using le Cons.prems(3) by (simp add: digits_value_from_Cons)
  note st = loop_step [OF dig bnd Cons.prems(1)]
  have "s_read_unsigned_loop cs ?w base =
        Inr (of_nat (digits_value_from (unat base) (unat ?w) cs))"
  proof (rule Cons.IH)
    show "0 < unat base" by (rule Cons.prems(1))
    show "\<forall>c\<in>set cs. is_digit (unat base) c" using Cons.prems(2) by simp
    show "digits_value_from (unat base) (unat ?w) cs < 2 ^ 64"
      using Cons.prems(3) by (simp only: st(2) digits_value_from_Cons)
  qed
  then show ?case
    by (simp only: st digits_value_from_Cons)
qed

lemma loop_append:
  "s_read_unsigned_loop (xs @ ys) val base =
     (case s_read_unsigned_loop xs val base of
        Inl e \<Rightarrow> Inl e
      | Inr v \<Rightarrow> s_read_unsigned_loop ys v base)"
  by (induction xs arbitrary: val) (simp_all add: Let_def)

lemma loop_invalid:
  "\<exists>c\<in>set cs. \<not> is_digit (unat base) c \<Longrightarrow> \<exists>e. s_read_unsigned_loop cs val base = Inl e"
proof (induction cs arbitrary: val)
  case Nil
  then show ?case by simp
next
  case (Cons c cs)
  show ?case
  proof (cases "is_digit (unat base) c")
    case False
    then show ?thesis by (simp add: cval_ge_base)
  next
    case True
    with Cons.prems have "\<exists>c\<in>set cs. \<not> is_digit (unat base) c" by simp
    from Cons.IH [OF this] show ?thesis by (simp add: Let_def)
  qed
qed

subsection \<open>The two readers\<close>

lemma read_unsigned_value:
  fixes base :: u8
  assumes pos: "0 < unat base" and ne: "cs \<noteq> []"
    and dig: "list_all (is_digit (unat base)) cs"
    and bnd: "digits_value (unat base) cs \<le> 2 ^ 64 - 1"
  shows "fst (s_read_unsigned cs base) = AWS_OP_SUCCESS"
    and "unat (snd (s_read_unsigned cs base)) = digits_value (unat base) cs"
proof -
  let ?v = "digits_value (unat base) cs"
  have lt: "?v < 2 ^ 64" using bnd by simp
  have "s_read_unsigned_loop cs 0 base = Inr (of_nat (digits_value_from (unat base) (unat (0 :: u64)) cs))"
  proof (rule loop_correct [OF pos])
    show "\<forall>c\<in>set cs. is_digit (unat base) c" using dig by (simp add: list_all_iff)
    show "digits_value_from (unat base) (unat (0 :: u64)) cs < 2 ^ 64"
      using lt by (simp add: digits_value_def)
  qed
  then have r: "s_read_unsigned cs base = (AWS_OP_SUCCESS, of_nat ?v)"
    using ne by (simp add: s_read_unsigned_def digits_value_def)
  show "fst (s_read_unsigned cs base) = AWS_OP_SUCCESS" by (simp add: r)
  have "unat (of_nat ?v :: u64) = ?v"
    using lt by (simp add: unat_of_nat)
  then show "unat (snd (s_read_unsigned cs base)) = ?v" by (simp add: r)
qed

lemma read_unsigned_first_invalid:
  fixes base :: u8
  assumes pos: "0 < unat base"
    and dig: "list_all (is_digit (unat base)) pre"
    and bnd: "digits_value (unat base) pre \<le> 2 ^ 64 - 1"
    and bad: "\<not> is_digit (unat base) c"
  shows "s_read_unsigned (pre @ c # rest) base = (AWS_OP_ERR AWS_ERROR_INVALID_ARGUMENT, 0)"
proof -
  have "s_read_unsigned_loop pre 0 base = Inr (of_nat (digits_value_from (unat base) (unat (0 :: u64)) pre))"
  proof (rule loop_correct [OF pos])
    show "\<forall>c\<in>set pre. is_digit (unat base) c" using dig by (simp add: list_all_iff)
    show "digits_value_from (unat base) (unat (0 :: u64)) pre < 2 ^ 64"
      using bnd by (simp add: digits_value_def)
  qed
  then have "s_read_unsigned_loop (pre @ c # rest) 0 base = Inl AWS_ERROR_INVALID_ARGUMENT"
    using bad by (simp add: loop_append cval_ge_base)
  then show ?thesis by (simp add: s_read_unsigned_def)
qed

lemma read_unsigned_rejects_non_digit:
  fixes base :: u8
  assumes "\<not> list_all (is_digit (unat base)) cs"
  shows "fst (s_read_unsigned cs base) \<noteq> AWS_OP_SUCCESS \<and> snd (s_read_unsigned cs base) = 0"
proof -
  have "\<exists>c\<in>set cs. \<not> is_digit (unat base) c" using assms by (simp add: list_all_iff)
  then obtain e where "s_read_unsigned_loop cs 0 base = Inl e"
    using loop_invalid by blast
  then show ?thesis by (simp add: s_read_unsigned_def)
qed

lemma read_unsigned_empty: "s_read_unsigned [] base = (AWS_OP_ERR AWS_ERROR_INVALID_ARGUMENT, 0)"
  by (simp add: s_read_unsigned_def)

text \<open>
  Claim C2 (a digit string whose value exceeds \<open>2^64 - 1\<close> fails with
  overflow-detected, never a wrapped value). The guard after the multiplication is
  \<open>val < prev_val\<close>, which a wrapped product can pass: in base 10 the prefix
  \<open>3689348814741910323\<close> times 10 wraps to \<open>2^64 - 2\<close>, which is not below the
  prefix, and in base 16 the prefix \<open>0x1111111111111112\<close> times 16 wraps to
  \<open>0x1111111111111120\<close>. Both strings consist of digits only, both values exceed
  \<open>2^64 - 1\<close>, and both calls return success with the wrapped value.
\<close>

theorem read_unsigned_overflow_missed:
  "list_all (is_digit 10) ''36893488147419103230''
   \<and> digits_value 10 ''36893488147419103230'' = 36893488147419103230
   \<and> (2 :: nat) ^ 64 - 1 < 36893488147419103230
   \<and> aws_strutil_read_unsigned_num ''36893488147419103230'' = (AWS_OP_SUCCESS, 18446744073709551614)
   \<and> list_all (is_digit 16) ''11111111111111120''
   \<and> digits_value 16 ''11111111111111120'' = 0x11111111111111120
   \<and> (2 :: nat) ^ 64 - 1 < 0x11111111111111120
   \<and> aws_strutil_read_unsigned_hex ''11111111111111120'' = (AWS_OP_SUCCESS, 0x1111111111111120)"
proof -
  have "aws_strutil_read_unsigned_num ''36893488147419103230'' = (AWS_OP_SUCCESS, 18446744073709551614)"
    by code_simp
  moreover have "aws_strutil_read_unsigned_hex ''11111111111111120'' = (AWS_OP_SUCCESS, 0x1111111111111120)"
    by code_simp
  ultimately show ?thesis
    by (simp add: is_digit_def spec_digit_value_def digits_value_def digits_value_from_def)
qed

text \<open>
  Claim C3, as stated, also promises invalid-argument for every input that contains a
  byte outside the digit set. The loop reads from left to right and returns at the
  first failing byte, so an overflow detected before the first non-digit wins: the
  input below contains \<open>x\<close> and fails with overflow-detected.
\<close>

theorem read_unsigned_invalid_after_overflow:
  "CHR ''x'' \<in> set ''18446744073709551616x''
   \<and> \<not> is_digit 10 (CHR ''x'')
   \<and> aws_strutil_read_unsigned_num ''18446744073709551616x'' = (AWS_OP_ERR AWS_ERROR_OVERFLOW_DETECTED, 0)
   \<and> fst (aws_strutil_read_unsigned_num ''18446744073709551616x'') \<noteq> AWS_OP_ERR AWS_ERROR_INVALID_ARGUMENT"
proof -
  have "aws_strutil_read_unsigned_num ''18446744073709551616x'' = (AWS_OP_ERR AWS_ERROR_OVERFLOW_DETECTED, 0)"
    by code_simp
  then show ?thesis
    by (simp add: is_digit_def spec_digit_value_def)
qed

text \<open>
  Claim C3, amended. For \<open>read_unsigned_num\<close> (base 10) and \<open>read_unsigned_hex\<close>
  (base 16): a non-empty string of digits of the base whose numeric value is at most
  \<open>2^64 - 1\<close> is accepted and exactly that value is stored; the empty input fails
  with invalid-argument; an input whose first non-digit comes after digits of value at
  most \<open>2^64 - 1\<close> fails with invalid-argument; any input containing a non-digit
  fails and leaves 0 in the destination; upper and lower case hexadecimal digits are
  both accepted, \<open>deadBEEF\<close> giving \<open>0xDEADBEEF\<close>.
\<close>

theorem read_unsigned_on_digit_strings:
  assumes "(read, base) = (aws_strutil_read_unsigned_num, 10) \<or> (read, base) = (aws_strutil_read_unsigned_hex, 16)"
  shows "(cs \<noteq> [] \<and> list_all (is_digit base) cs \<and> digits_value base cs \<le> 2 ^ 64 - 1 \<longrightarrow>
            fst (read cs) = AWS_OP_SUCCESS \<and> unat (snd (read cs)) = digits_value base cs)
       \<and> read [] = (AWS_OP_ERR AWS_ERROR_INVALID_ARGUMENT, 0)
       \<and> (list_all (is_digit base) pre \<and> digits_value base pre \<le> 2 ^ 64 - 1 \<and> \<not> is_digit base c \<longrightarrow>
            read (pre @ c # rest) = (AWS_OP_ERR AWS_ERROR_INVALID_ARGUMENT, 0))
       \<and> (\<not> list_all (is_digit base) cs \<longrightarrow> fst (read cs) \<noteq> AWS_OP_SUCCESS \<and> snd (read cs) = 0)
       \<and> aws_strutil_read_unsigned_hex ''deadBEEF'' = (AWS_OP_SUCCESS, 0xDEADBEEF)"
proof -
  obtain b :: u8 where b: "read = (\<lambda>cursor. s_read_unsigned cursor b)" "unat b = base" "0 < unat b"
  proof (rule disjE [OF assms])
    assume "(read, base) = (aws_strutil_read_unsigned_num, 10)"
    then have "read = (\<lambda>cursor. s_read_unsigned cursor 10)" "unat (10 :: u8) = base" "0 < unat (10 :: u8)"
      by (auto simp add: aws_strutil_read_unsigned_num_def fun_eq_iff)
    then show thesis by (rule that)
  next
    assume "(read, base) = (aws_strutil_read_unsigned_hex, 16)"
    then have "read = (\<lambda>cursor. s_read_unsigned cursor 16)" "unat (16 :: u8) = base" "0 < unat (16 :: u8)"
      by (auto simp add: aws_strutil_read_unsigned_hex_def fun_eq_iff)
    then show thesis by (rule that)
  qed
  have 1: "cs \<noteq> [] \<and> list_all (is_digit base) cs \<and> digits_value base cs \<le> 2 ^ 64 - 1 \<longrightarrow>
            fst (read cs) = AWS_OP_SUCCESS \<and> unat (snd (read cs)) = digits_value base cs"
    using read_unsigned_value [of b cs] b by simp
  have 2: "read [] = (AWS_OP_ERR AWS_ERROR_INVALID_ARGUMENT, 0)"
    using b by (simp add: read_unsigned_empty)
  have 3: "list_all (is_digit base) pre \<and> digits_value base pre \<le> 2 ^ 64 - 1 \<and> \<not> is_digit base c \<longrightarrow>
            read (pre @ c # rest) = (AWS_OP_ERR AWS_ERROR_INVALID_ARGUMENT, 0)"
    using read_unsigned_first_invalid [of b pre c rest] b by simp
  have 4: "\<not> list_all (is_digit base) cs \<longrightarrow> fst (read cs) \<noteq> AWS_OP_SUCCESS \<and> snd (read cs) = 0"
    using read_unsigned_rejects_non_digit [of b cs] b by simp
  have 5: "aws_strutil_read_unsigned_hex ''deadBEEF'' = (AWS_OP_SUCCESS, 0xDEADBEEF)"
    by code_simp
  from 1 2 3 4 5 show ?thesis by blast
qed

theorem read_unsigned_on_digit_strings_witness:
  "list_all (is_digit 16) ''deadBEEF''
   \<and> digits_value 16 ''deadBEEF'' \<le> 2 ^ 64 - 1
   \<and> fst (aws_strutil_read_unsigned_hex ''deadBEEF'') = AWS_OP_SUCCESS
   \<and> unat (snd (aws_strutil_read_unsigned_hex ''deadBEEF'')) = 3735928559
   \<and> list_all (is_digit 16) ''12''
   \<and> \<not> is_digit 16 (CHR ''x'')
   \<and> aws_strutil_read_unsigned_hex ''12x3'' = (AWS_OP_ERR AWS_ERROR_INVALID_ARGUMENT, 0)
   \<and> \<not> list_all (is_digit 16) ''12x3''
   \<and> fst (aws_strutil_read_unsigned_hex ''12x3'') \<noteq> AWS_OP_SUCCESS
   \<and> list_all (is_digit 10) ''18446744073709551615''
   \<and> digits_value 10 ''18446744073709551615'' \<le> 2 ^ 64 - 1
   \<and> fst (aws_strutil_read_unsigned_num ''18446744073709551615'') = AWS_OP_SUCCESS
   \<and> unat (snd (aws_strutil_read_unsigned_num ''18446744073709551615'')) = 18446744073709551615"
  using read_unsigned_on_digit_strings [of aws_strutil_read_unsigned_hex 16 "''deadBEEF''" "''12''" "CHR ''x''" "''3''"]
        read_unsigned_on_digit_strings [of aws_strutil_read_unsigned_hex 16 "''12x3''" "''12''" "CHR ''x''" "''3''"]
        read_unsigned_on_digit_strings [of aws_strutil_read_unsigned_num 10 "''18446744073709551615''" "''12''" "CHR ''x''" "''3''"]
  by (simp add: is_digit_def spec_digit_value_def digits_value_def digits_value_from_def)

subsection \<open>Trimming\<close>

declare s_trim_leading.simps [simp del] s_trim_trailing.simps [simp del]

lemma s_trim_leading_bounds:
  "i \<le> len cursor \<Longrightarrow>
     i \<le> s_trim_leading mem cursor trim_table i \<and> s_trim_leading mem cursor trim_table i \<le> len cursor"
proof (induction mem cursor trim_table i rule: s_trim_leading.induct)
  case (1 mem cursor trim_table i)
  show ?case
  proof (cases "i < len cursor \<and> trim_table (of_char (mem (ptr cursor + i)))")
    case True
    then have "i + 1 \<le> len cursor" by simp
    with True "1.IH" [of "mem (ptr cursor + i)"]
    have "i + 1 \<le> s_trim_leading mem cursor trim_table (i + 1)
          \<and> s_trim_leading mem cursor trim_table (i + 1) \<le> len cursor" by simp
    moreover have "s_trim_leading mem cursor trim_table i = s_trim_leading mem cursor trim_table (i + 1)"
      using True by (subst s_trim_leading.simps) simp
    ultimately show ?thesis by simp
  next
    case False
    then have "s_trim_leading mem cursor trim_table i = i"
      by (subst s_trim_leading.simps) auto
    with "1.prems" show ?thesis by simp
  qed
qed

lemma s_trim_leading_skipped:
  "i \<le> j \<Longrightarrow> j < s_trim_leading mem cursor trim_table i \<Longrightarrow> trim_table (of_char (mem (ptr cursor + j)))"
proof (induction mem cursor trim_table i rule: s_trim_leading.induct)
  case (1 mem cursor trim_table i)
  show ?case
  proof (cases "i < len cursor \<and> trim_table (of_char (mem (ptr cursor + i)))")
    case True
    have eq: "s_trim_leading mem cursor trim_table i = s_trim_leading mem cursor trim_table (i + 1)"
      using True by (subst s_trim_leading.simps) simp
    show ?thesis
    proof (cases "j = i")
      case True
      with \<open>i < len cursor \<and> trim_table (of_char (mem (ptr cursor + i)))\<close> show ?thesis by simp
    next
      case False
      with "1.prems" have "i + 1 \<le> j" by simp
      moreover have "j < s_trim_leading mem cursor trim_table (i + 1)"
        using "1.prems" eq by simp
      ultimately show ?thesis
        using True "1.IH" [of "mem (ptr cursor + i)"] by simp
    qed
  next
    case False
    then have "s_trim_leading mem cursor trim_table i = i"
      by (subst s_trim_leading.simps) auto
    with "1.prems" show ?thesis by simp
  qed
qed

lemma s_trim_leading_stops:
  "s_trim_leading mem cursor trim_table i < len cursor \<Longrightarrow>
     \<not> trim_table (of_char (mem (ptr cursor + s_trim_leading mem cursor trim_table i)))"
proof (induction mem cursor trim_table i rule: s_trim_leading.induct)
  case (1 mem cursor trim_table i)
  show ?case
  proof (cases "i < len cursor \<and> trim_table (of_char (mem (ptr cursor + i)))")
    case True
    have eq: "s_trim_leading mem cursor trim_table i = s_trim_leading mem cursor trim_table (i + 1)"
      using True by (subst s_trim_leading.simps) simp
    show ?thesis
      using True "1.IH" [of "mem (ptr cursor + i)"] "1.prems" by (simp add: eq)
  next
    case False
    then have eq: "s_trim_leading mem cursor trim_table i = i"
      by (subst s_trim_leading.simps) auto
    with "1.prems" False show ?thesis by simp
  qed
qed

lemma s_trim_leading_fixed:
  "len cursor = 0 \<or> \<not> trim_table (of_char (mem (ptr cursor))) \<Longrightarrow>
     s_trim_leading mem cursor trim_table 0 = 0"
  by (subst s_trim_leading.simps) auto

lemma s_trim_trailing_fixed:
  "len cursor = 0 \<or> \<not> trim_table (of_char (mem (ptr cursor + (len cursor - 1)))) \<Longrightarrow>
     s_trim_trailing mem cursor trim_table = cursor"
  by (subst s_trim_trailing.simps) auto

lemma s_trim_trailing_step:
  assumes "len cursor \<noteq> 0 \<and> trim_table (of_char (mem (ptr cursor + (len cursor - 1))))"
  shows "s_trim_trailing mem cursor trim_table =
         s_trim_trailing mem (cursor\<lparr>len := len cursor - 1\<rparr>) trim_table"
proof -
  have a: "len cursor \<noteq> 0"
    by (rule conjunct1 [OF assms])
  have b: "trim_table (of_char (mem (ptr cursor + (len cursor - 1))))"
    by (rule conjunct2 [OF assms])
  show ?thesis
    by (subst s_trim_trailing.simps) (simp only: a b Let_def if_True not_True_eq_False not_False_eq_True if_False)
qed

text \<open>
  What the induction hypothesis of \<open>s_trim_trailing\<close> gives for the shortened cursor
  when the last byte is in the table.
\<close>

lemma s_trim_trailing_induct_step:
  assumes step: "len cursor \<noteq> 0 \<and> trim_table (of_char (mem (ptr cursor + (len cursor - 1))))"
    and IH: "\<And>x. len cursor \<noteq> 0 \<Longrightarrow> x = mem (ptr cursor + (len cursor - 1)) \<Longrightarrow>
               \<not> \<not> trim_table (of_char x) \<Longrightarrow> P (cursor\<lparr>len := len cursor - 1\<rparr>)"
  shows "P (cursor\<lparr>len := len cursor - 1\<rparr>)"
proof (rule IH)
  show "len cursor \<noteq> 0" by (rule conjunct1 [OF step])
  show "mem (ptr cursor + (len cursor - 1)) = mem (ptr cursor + (len cursor - 1))" by (rule refl)
  show "\<not> \<not> trim_table (of_char (mem (ptr cursor + (len cursor - 1))))"
    using conjunct2 [OF step] by blast
qed

lemma s_trim_trailing_view:
  "ptr (s_trim_trailing mem cursor trim_table) = ptr cursor
   \<and> len (s_trim_trailing mem cursor trim_table) \<le> len cursor"
proof (induction mem cursor trim_table rule: s_trim_trailing.induct)
  case (1 mem cursor trim_table)
  let ?short = "cursor\<lparr>len := len cursor - 1\<rparr>"
  show ?case
  proof (cases "len cursor \<noteq> 0 \<and> trim_table (of_char (mem (ptr cursor + (len cursor - 1))))")
    case True
    note eq = s_trim_trailing_step [where cursor = cursor and mem = mem and trim_table = trim_table, OF True]
    have "ptr (s_trim_trailing mem ?short trim_table) = ptr ?short
          \<and> len (s_trim_trailing mem ?short trim_table) \<le> len ?short"
      using True "1.IH" by (rule s_trim_trailing_induct_step)
    then have "ptr (s_trim_trailing mem ?short trim_table) = ptr cursor"
      and "len (s_trim_trailing mem ?short trim_table) \<le> len cursor"
      by auto
    then show ?thesis by (simp add: eq)
  next
    case False
    then show ?thesis by (simp add: s_trim_trailing_fixed)
  qed
qed

lemma s_trim_trailing_skipped:
  "len (s_trim_trailing mem cursor trim_table) \<le> j \<Longrightarrow> j < len cursor \<Longrightarrow>
     trim_table (of_char (mem (ptr cursor + j)))"
proof (induction mem cursor trim_table rule: s_trim_trailing.induct)
  case (1 mem cursor trim_table)
  let ?short = "cursor\<lparr>len := len cursor - 1\<rparr>"
  show ?case
  proof (cases "len cursor \<noteq> 0 \<and> trim_table (of_char (mem (ptr cursor + (len cursor - 1))))")
    case True
    note eq = s_trim_trailing_step [where cursor = cursor and mem = mem and trim_table = trim_table, OF True]
    have IH: "len (s_trim_trailing mem ?short trim_table) \<le> j \<longrightarrow> j < len ?short \<longrightarrow>
              trim_table (of_char (mem (ptr ?short + j)))"
      using True
    proof (rule s_trim_trailing_induct_step)
      fix x
      assume "len cursor \<noteq> 0" "x = mem (ptr cursor + (len cursor - 1))" "\<not> \<not> trim_table (of_char x)"
      then show "len (s_trim_trailing mem ?short trim_table) \<le> j \<longrightarrow> j < len ?short \<longrightarrow>
              trim_table (of_char (mem (ptr ?short + j)))"
        using "1.IH" by blast
    qed
    show ?thesis
    proof (cases "j = len cursor - 1")
      case True
      then show ?thesis using conjunct2 [OF \<open>len cursor \<noteq> 0 \<and> trim_table (of_char (mem (ptr cursor + (len cursor - 1))))\<close>]
        by (simp only:)
    next
      case False
      with "1.prems" have "j < len ?short" by simp
      moreover have "len (s_trim_trailing mem ?short trim_table) \<le> j"
        using "1.prems" by (simp add: eq)
      ultimately have "trim_table (of_char (mem (ptr ?short + j)))" using IH by blast
      then show ?thesis by simp
    qed
  next
    case False
    then have "s_trim_trailing mem cursor trim_table = cursor" by (simp add: s_trim_trailing_fixed)
    with "1.prems" show ?thesis by simp
  qed
qed

lemma s_trim_trailing_stops:
  "len (s_trim_trailing mem cursor trim_table) \<noteq> 0 \<Longrightarrow>
     \<not> trim_table (of_char (mem (ptr cursor + (len (s_trim_trailing mem cursor trim_table) - 1))))"
proof (induction mem cursor trim_table rule: s_trim_trailing.induct)
  case (1 mem cursor trim_table)
  let ?short = "cursor\<lparr>len := len cursor - 1\<rparr>"
  show ?case
  proof (cases "len cursor \<noteq> 0 \<and> trim_table (of_char (mem (ptr cursor + (len cursor - 1))))")
    case True
    note eq = s_trim_trailing_step [where cursor = cursor and mem = mem and trim_table = trim_table, OF True]
    have IH: "len (s_trim_trailing mem ?short trim_table) \<noteq> 0 \<longrightarrow>
              \<not> trim_table (of_char (mem (ptr ?short + (len (s_trim_trailing mem ?short trim_table) - 1))))"
      using True
    proof (rule s_trim_trailing_induct_step)
      fix x
      assume "len cursor \<noteq> 0" "x = mem (ptr cursor + (len cursor - 1))" "\<not> \<not> trim_table (of_char x)"
      then show "len (s_trim_trailing mem ?short trim_table) \<noteq> 0 \<longrightarrow>
              \<not> trim_table (of_char (mem (ptr ?short + (len (s_trim_trailing mem ?short trim_table) - 1))))"
        using "1.IH" by blast
    qed
    have "len (s_trim_trailing mem ?short trim_table) \<noteq> 0"
      using "1.prems" by (simp add: eq)
    with IH have "\<not> trim_table (of_char (mem (ptr ?short + (len (s_trim_trailing mem ?short trim_table) - 1))))"
      by blast
    then have "\<not> trim_table (of_char (mem (ptr cursor + (len (s_trim_trailing mem ?short trim_table) - 1))))"
      by simp
    then show ?thesis by (simp add: eq)
  next
    case False
    then have eq: "s_trim_trailing mem cursor trim_table = cursor" by (simp add: s_trim_trailing_fixed)
    have "len cursor \<noteq> 0" using "1.prems" by (simp add: eq)
    with False have "\<not> trim_table (of_char (mem (ptr cursor + (len cursor - 1))))" by blast
    then show ?thesis by (simp add: eq)
  qed
qed

lemma s_trim_trailing_keeps_first:
  "len cursor \<noteq> 0 \<Longrightarrow> \<not> trim_table (of_char (mem (ptr cursor))) \<Longrightarrow>
     len (s_trim_trailing mem cursor trim_table) \<noteq> 0"
proof (induction mem cursor trim_table rule: s_trim_trailing.induct)
  case (1 mem cursor trim_table)
  let ?short = "cursor\<lparr>len := len cursor - 1\<rparr>"
  show ?case
  proof (cases "len cursor \<noteq> 0 \<and> trim_table (of_char (mem (ptr cursor + (len cursor - 1))))")
    case True
    note eq = s_trim_trailing_step [where cursor = cursor and mem = mem and trim_table = trim_table, OF True]
    have IH: "len ?short \<noteq> 0 \<longrightarrow> \<not> trim_table (of_char (mem (ptr ?short))) \<longrightarrow>
              len (s_trim_trailing mem ?short trim_table) \<noteq> 0"
      using True
    proof (rule s_trim_trailing_induct_step)
      fix x
      assume "len cursor \<noteq> 0" "x = mem (ptr cursor + (len cursor - 1))" "\<not> \<not> trim_table (of_char x)"
      then show "len ?short \<noteq> 0 \<longrightarrow> \<not> trim_table (of_char (mem (ptr ?short))) \<longrightarrow>
              len (s_trim_trailing mem ?short trim_table) \<noteq> 0"
        using "1.IH" by blast
    qed
    have "len cursor - 1 \<noteq> 0"
    proof
      assume z: "len cursor - 1 = 0"
      have "trim_table (of_char (mem (ptr cursor + (len cursor - 1))))" by (rule conjunct2 [OF True])
      then have "trim_table (of_char (mem (ptr cursor)))" by (simp only: z add_0_right)
      with "1.prems" show False by blast
    qed
    then have "len ?short \<noteq> 0" by simp
    moreover have "\<not> trim_table (of_char (mem (ptr ?short)))" using "1.prems" by simp
    ultimately have "len (s_trim_trailing mem ?short trim_table) \<noteq> 0" using IH by blast
    then show ?thesis by (simp add: eq)
  next
    case False
    then have "s_trim_trailing mem cursor trim_table = cursor" by (simp add: s_trim_trailing_fixed)
    with "1.prems" show ?thesis by simp
  qed
qed

lemma whitespace_table_char: "s_http_whitespace_table (of_char c) = is_http_whitespace c"
  by (simp only: s_http_whitespace_table_def is_http_whitespace_def of_char_eq_iff)

lemma s_trim_props:
  fixes mem cursor trim_table
  defines "r \<equiv> s_trim mem cursor trim_table"
  shows s_trim_subview: "ptr cursor \<le> ptr r \<and> ptr r + len r \<le> ptr cursor + len cursor"
    and s_trim_leading_removed: "ptr cursor \<le> a \<and> a < ptr r \<longrightarrow> trim_table (of_char (mem a))"
    and s_trim_trailing_removed:
      "ptr r + len r \<le> a \<and> a < ptr cursor + len cursor \<longrightarrow> trim_table (of_char (mem a))"
    and s_trim_ends:
      "len r \<noteq> 0 \<longrightarrow> \<not> trim_table (of_char (mem (ptr r)))
                        \<and> \<not> trim_table (of_char (mem (ptr r + (len r - 1))))"
    and s_trim_idem: "s_trim mem r trim_table = r"
proof -
  define i where "i = s_trim_leading mem cursor trim_table 0"
  define c1 where "c1 = cursor\<lparr>ptr := ptr cursor + i, len := len cursor - i\<rparr>"
  have r: "r = s_trim_trailing mem c1 trim_table"
    by (simp add: r_def s_trim_def Let_def c1_def i_def)
  have i_le: "i \<le> len cursor"
    using s_trim_leading_bounds [of 0 cursor mem trim_table] by (simp add: i_def)
  have c1_ptr: "ptr c1 = ptr cursor + i" and c1_len: "len c1 = len cursor - i"
    by (simp_all add: c1_def)
  have r_ptr: "ptr r = ptr c1" and r_len: "len r \<le> len c1"
    using s_trim_trailing_view [of mem c1 trim_table] by (simp_all add: r)
  show sub: "ptr cursor \<le> ptr r \<and> ptr r + len r \<le> ptr cursor + len cursor"
    using i_le r_len by (simp add: r_ptr c1_ptr c1_len)
  show "ptr cursor \<le> a \<and> a < ptr r \<longrightarrow> trim_table (of_char (mem a))"
  proof
    assume h: "ptr cursor \<le> a \<and> a < ptr r"
    then have "a - ptr cursor < s_trim_leading mem cursor trim_table 0"
      by (simp add: r_ptr c1_ptr i_def less_diff_conv2)
    from s_trim_leading_skipped [OF _ this] have "trim_table (of_char (mem (ptr cursor + (a - ptr cursor))))"
      by simp
    with h show "trim_table (of_char (mem a))" by simp
  qed
  show "ptr r + len r \<le> a \<and> a < ptr cursor + len cursor \<longrightarrow> trim_table (of_char (mem a))"
  proof
    assume h: "ptr r + len r \<le> a \<and> a < ptr cursor + len cursor"
    have "len (s_trim_trailing mem c1 trim_table) \<le> a - ptr c1"
      using h by (simp add: r [symmetric] r_ptr le_diff_conv2)
    moreover have "a - ptr c1 < len c1"
      using h i_le by (simp add: r_ptr c1_ptr c1_len) linarith
    ultimately have "trim_table (of_char (mem (ptr c1 + (a - ptr c1))))"
      by (rule s_trim_trailing_skipped)
    moreover have "ptr c1 \<le> a" using h by (simp add: r_ptr)
    ultimately show "trim_table (of_char (mem a))" by simp
  qed
  have first: "len c1 \<noteq> 0 \<longrightarrow> \<not> trim_table (of_char (mem (ptr c1)))"
  proof
    assume "len c1 \<noteq> 0"
    then have "s_trim_leading mem cursor trim_table 0 < len cursor"
      by (simp add: c1_len i_def)
    from s_trim_leading_stops [OF this]
    show "\<not> trim_table (of_char (mem (ptr c1)))" by (simp add: c1_ptr i_def)
  qed
  have last: "len r \<noteq> 0 \<longrightarrow> \<not> trim_table (of_char (mem (ptr r + (len r - 1))))"
    using s_trim_trailing_stops [of mem c1 trim_table] by (simp add: r [symmetric] r_ptr)
  have nonempty: "len r \<noteq> 0 \<longrightarrow> len c1 \<noteq> 0"
    using r_len by auto
  show "len r \<noteq> 0 \<longrightarrow> \<not> trim_table (of_char (mem (ptr r)))
                        \<and> \<not> trim_table (of_char (mem (ptr r + (len r - 1))))"
    using first last nonempty by (simp add: r_ptr)
  show "s_trim mem r trim_table = r"
  proof -
    have lead: "s_trim_leading mem r trim_table 0 = 0"
    proof (rule s_trim_leading_fixed)
      show "len r = 0 \<or> \<not> trim_table (of_char (mem (ptr r)))"
        using first nonempty by (auto simp add: r_ptr)
    qed
    have trail: "s_trim_trailing mem r trim_table = r"
    proof (rule s_trim_trailing_fixed)
      show "len r = 0 \<or> \<not> trim_table (of_char (mem (ptr r + (len r - 1))))"
        using last by blast
    qed
    show ?thesis by (simp add: s_trim_def lead trail)
  qed
qed


text \<open>
  Claim C4. \<open>trim_http_whitespace\<close> returns a sub-view \<open>r\<close> of its input; every byte
  of the input before or after \<open>r\<close> is a blank or a tab; \<open>r\<close> is empty or begins
  and ends with a byte that is neither, so exactly the leading and trailing blanks and
  tabs are removed; and trimming \<open>r\<close> again returns \<open>r\<close>.
\<close>

theorem trim_http_whitespace_subview_idempotent:
  assumes "r = aws_strutil_trim_http_whitespace mem cursor"
  shows "ptr cursor \<le> ptr r \<and> ptr r + len r \<le> ptr cursor + len cursor
       \<and> (\<forall>a. ptr cursor \<le> a \<and> a < ptr r \<longrightarrow> is_http_whitespace (mem a))
       \<and> (\<forall>a. ptr r + len r \<le> a \<and> a < ptr cursor + len cursor \<longrightarrow> is_http_whitespace (mem a))
       \<and> (len r \<noteq> 0 \<longrightarrow> \<not> is_http_whitespace (mem (ptr r))
                          \<and> \<not> is_http_whitespace (mem (ptr r + (len r - 1))))
       \<and> aws_strutil_trim_http_whitespace mem r = r"
  unfolding assms aws_strutil_trim_http_whitespace_def
  using s_trim_subview [of cursor mem s_http_whitespace_table]
    s_trim_leading_removed [of cursor _ mem s_http_whitespace_table]
    s_trim_trailing_removed [of mem cursor s_http_whitespace_table]
    s_trim_ends [of mem cursor s_http_whitespace_table]
    s_trim_idem [of mem cursor s_http_whitespace_table]
  by (simp only: whitespace_table_char) blast

text \<open>The specification's scenario: the view of \<open>ab\<close> inside the input, at offset 2.\<close>

theorem trim_http_whitespace_subview_idempotent_witness:
  "\<lparr>len = 2, ptr = 2\<rparr>
     = aws_strutil_trim_http_whitespace (mem_of_string trim_scenario_input) (cursor_of_string trim_scenario_input)
   \<and> cursor_bytes (mem_of_string trim_scenario_input) \<lparr>len = 2, ptr = 2\<rparr> = ''ab''
   \<and> is_http_whitespace (mem_of_string trim_scenario_input 1)
   \<and> is_http_whitespace (mem_of_string trim_scenario_input 4)
   \<and> \<not> is_http_whitespace (mem_of_string trim_scenario_input 2)
   \<and> \<not> is_http_whitespace (mem_of_string trim_scenario_input 3)
   \<and> aws_strutil_trim_http_whitespace (mem_of_string trim_scenario_input) \<lparr>len = 2, ptr = 2\<rparr>
       = \<lparr>len = 2, ptr = 2\<rparr>"
proof -
  have r: "\<lparr>len = 2, ptr = 2\<rparr>
     = aws_strutil_trim_http_whitespace (mem_of_string trim_scenario_input) (cursor_of_string trim_scenario_input)"
    by (simp add: trim_scenario_input_def aws_strutil_trim_http_whitespace_def s_trim_def
        s_trim_leading.simps s_trim_trailing.simps Let_def mem_of_string_def cursor_of_string_def
        s_http_whitespace_table_def)
  have b: "cursor_bytes (mem_of_string trim_scenario_input) \<lparr>len = 2, ptr = 2\<rparr> = ''ab''"
    by (simp add: cursor_bytes_def mem_of_string_def trim_scenario_input_def upt_rec)
  note t = trim_http_whitespace_subview_idempotent [OF r]
  from t have idem: "aws_strutil_trim_http_whitespace (mem_of_string trim_scenario_input) \<lparr>len = 2, ptr = 2\<rparr>
       = \<lparr>len = 2, ptr = 2\<rparr>"
    by blast
  from t have lead: "is_http_whitespace (mem_of_string trim_scenario_input 1)"
    by (simp add: cursor_of_string_def)
  from t have trail: "is_http_whitespace (mem_of_string trim_scenario_input 4)"
    by (simp add: cursor_of_string_def trim_scenario_input_def)
  from t have ends: "\<not> is_http_whitespace (mem_of_string trim_scenario_input 2)
                     \<and> \<not> is_http_whitespace (mem_of_string trim_scenario_input 3)"
    by simp
  from r b idem lead trail ends show ?thesis by blast
qed

section \<open>Properties of connections and servers\<close>

subsection \<open>Version determination\<close>

text \<open>
  Claim C5. With TLS, the negotiated protocol \<open>http/1.1\<close> gives version 1.1 and
  \<open>h2\<close> gives version 2; any other non-empty protocol gives 1.1; an empty one gives
  1.1; without TLS the version is 1.1 whatever is to the left of the slot.
\<close>

theorem alpn_version_mapping:
  "s_connection_new_version True (Some ''http/1.1'') = Inr AWS_HTTP_VERSION_1_1
   \<and> s_connection_new_version True (Some ''h2'') = Inr AWS_HTTP_VERSION_2
   \<and> (protocol \<noteq> [] \<and> protocol \<noteq> ''http/1.1'' \<and> protocol \<noteq> ''h2'' \<longrightarrow>
        s_connection_new_version True (Some protocol) = Inr AWS_HTTP_VERSION_1_1)
   \<and> s_connection_new_version True (Some []) = Inr AWS_HTTP_VERSION_1_1
   \<and> s_connection_new_version False left_handler = Inr AWS_HTTP_VERSION_1_1"
  by (simp add: s_connection_new_version_def)

theorem alpn_version_mapping_witness:
  "''spdy/3'' \<noteq> [] \<and> ''spdy/3'' \<noteq> ''http/1.1'' \<and> ''spdy/3'' \<noteq> ''h2''
   \<and> s_connection_new_version True (Some ''spdy/3'') = Inr AWS_HTTP_VERSION_1_1"
  using alpn_version_mapping [of "''spdy/3''"] by simp

subsection \<open>Releasing a connection\<close>

text \<open>
  Claim C6. \<open>release\<close> decrements the refcount in one step. When the previous count
  was 1 it requests channel shutdown with the success code and then releases the hold
  on the channel, once each; when the previous count was above 1 nothing but the
  refcount changes; and whenever the call returns, channel operations were performed
  if and only if the previous count was 1.
\<close>

theorem connection_release_final_only:
  "(refcount connection = 1 \<longrightarrow>
      aws_http_connection_release debug_build connection w =
        Done (connection\<lparr>refcount := 0\<rparr>,
              w\<lparr>events := events w @ [Channel_shutdown (channel_slot connection) AWS_ERROR_SUCCESS,
                                       Channel_release_hold (channel_slot connection)]\<rparr>))
   \<and> (1 < refcount connection \<longrightarrow>
      aws_http_connection_release debug_build connection w =
        Done (connection\<lparr>refcount := refcount connection - 1\<rparr>, w))
   \<and> (\<forall>connection' w'. aws_http_connection_release debug_build connection w = Done (connection', w') \<longrightarrow>
        refcount connection' = refcount connection - 1
        \<and> connection'\<lparr>refcount := refcount connection\<rparr> = connection
        \<and> last_error w' = last_error w
        \<and> (events w' \<noteq> events w \<longleftrightarrow> refcount connection = 1))"
proof -
  have gt: "1 < refcount connection \<Longrightarrow> refcount connection \<noteq> 1 \<and> refcount connection \<noteq> 0"
    by (auto simp add: word_less_nat_alt)
  show ?thesis
    using gt by (auto simp add: aws_http_connection_release_def emit_def Let_def)
qed

theorem connection_release_final_only_witness:
  "refcount (aws_http_connection_new_http1_1 True 0) = 1
   \<and> aws_http_connection_release False (aws_http_connection_new_http1_1 True 0) \<lparr>last_error = AWS_ERROR_SUCCESS, events = []\<rparr>
       = Done ((aws_http_connection_new_http1_1 True 0)\<lparr>refcount := 0\<rparr>,
               \<lparr>last_error = AWS_ERROR_SUCCESS,
                events = [Channel_shutdown 0 AWS_ERROR_SUCCESS, Channel_release_hold 0]\<rparr>)
   \<and> 1 < refcount (aws_http_connection_acquire (aws_http_connection_new_http1_1 True 0))
   \<and> aws_http_connection_release False (aws_http_connection_acquire (aws_http_connection_new_http1_1 True 0))
         \<lparr>last_error = AWS_ERROR_SUCCESS, events = []\<rparr>
       = Done (aws_http_connection_new_http1_1 True 0, \<lparr>last_error = AWS_ERROR_SUCCESS, events = []\<rparr>)"
  using connection_release_final_only [of "aws_http_connection_new_http1_1 True 0" False "\<lparr>last_error = AWS_ERROR_SUCCESS, events = []\<rparr>"]
    connection_release_final_only [of "aws_http_connection_acquire (aws_http_connection_new_http1_1 True 0)" False "\<lparr>last_error = AWS_ERROR_SUCCESS, events = []\<rparr>"]
  by (simp add: aws_http_connection_new_http1_1_def aws_http_connection_acquire_def)

subsection \<open>Configuring a server connection\<close>

text \<open>
  Claim C7. \<open>configure_server\<close> fails with invalid-argument when the connection, the
  options or the \<open>on_incoming_request\<close> callback is missing, with invalid-state on a
  connection without \<open>server_data\<close> and on a connection whose \<open>on_incoming_request\<close>
  is already set; otherwise it returns success with both callbacks installed; every
  failing call leaves the connection as it was.
\<close>

theorem configure_server_results:
  "aws_http_connection_configure_server None options = (AWS_OP_ERR AWS_ERROR_INVALID_ARGUMENT, None)
   \<and> aws_http_connection_configure_server (Some conn) None = (AWS_OP_ERR AWS_ERROR_INVALID_ARGUMENT, Some conn)
   \<and> (opt_on_incoming_request opts = None \<longrightarrow>
        aws_http_connection_configure_server (Some conn) (Some opts)
          = (AWS_OP_ERR AWS_ERROR_INVALID_ARGUMENT, Some conn))
   \<and> (opt_on_incoming_request opts \<noteq> None \<and> server_data conn = None \<longrightarrow>
        aws_http_connection_configure_server (Some conn) (Some opts)
          = (AWS_OP_ERR AWS_ERROR_INVALID_STATE, Some conn))
   \<and> (opt_on_incoming_request opts \<noteq> None \<and> server_data conn = Some sd \<and> on_incoming_request sd \<noteq> None \<longrightarrow>
        aws_http_connection_configure_server (Some conn) (Some opts)
          = (AWS_OP_ERR AWS_ERROR_INVALID_STATE, Some conn))
   \<and> (opt_on_incoming_request opts \<noteq> None \<and> server_data conn = Some sd \<and> on_incoming_request sd = None \<longrightarrow>
        (\<exists>conn'. aws_http_connection_configure_server (Some conn) (Some opts) = (AWS_OP_SUCCESS, Some conn')
           \<and> server_data conn' = Some \<lparr>on_incoming_request = opt_on_incoming_request opts,
                                       on_shutdown = opt_on_shutdown opts\<rparr>))
   \<and> (fst (aws_http_connection_configure_server connection options) \<noteq> AWS_OP_SUCCESS \<longrightarrow>
        snd (aws_http_connection_configure_server connection options) = connection)"
  by (auto simp add: aws_http_connection_configure_server_def split: option.splits)

theorem configure_server_results_witness:
  "opt_on_incoming_request example_options \<noteq> None
   \<and> server_data (aws_http_connection_new_http1_1 True 0)
       = Some \<lparr>on_incoming_request = None, on_shutdown = None\<rparr>
   \<and> (\<exists>conn'. aws_http_connection_configure_server (Some (aws_http_connection_new_http1_1 True 0))
                  (Some example_options) = (AWS_OP_SUCCESS, Some conn')
         \<and> server_data conn' = Some \<lparr>on_incoming_request = Some 4, on_shutdown = Some 5\<rparr>)
   \<and> server_data (aws_http_connection_new_http1_1 False 0) = None
   \<and> aws_http_connection_configure_server (Some (aws_http_connection_new_http1_1 False 0)) (Some example_options)
       = (AWS_OP_ERR AWS_ERROR_INVALID_STATE, Some (aws_http_connection_new_http1_1 False 0))
   \<and> opt_on_incoming_request (example_options\<lparr>opt_on_incoming_request := None\<rparr>) = None
   \<and> aws_http_connection_configure_server (Some (aws_http_connection_new_http1_1 True 0))
        (Some (example_options\<lparr>opt_on_incoming_request := None\<rparr>))
       = (AWS_OP_ERR AWS_ERROR_INVALID_ARGUMENT, Some (aws_http_connection_new_http1_1 True 0))"
proof -
  let ?server = "aws_http_connection_new_http1_1 True 0"
  let ?client = "aws_http_connection_new_http1_1 False 0"
  let ?unset = "\<lparr>on_incoming_request = None, on_shutdown = None\<rparr>"
  have h1: "opt_on_incoming_request example_options \<noteq> None"
    by (simp add: example_options_def)
  have h2: "server_data ?server = Some ?unset"
    by (simp add: aws_http_connection_new_http1_1_def)
  have h3: "server_data ?client = None"
    by (simp add: aws_http_connection_new_http1_1_def)
  have h4: "opt_on_incoming_request (example_options\<lparr>opt_on_incoming_request := None\<rparr>) = None"
    by simp
  have h5: "on_incoming_request ?unset = None"
    by simp
  have r1: "\<exists>conn'. aws_http_connection_configure_server (Some ?server) (Some example_options)
                       = (AWS_OP_SUCCESS, Some conn')
              \<and> server_data conn' = Some \<lparr>on_incoming_request = opt_on_incoming_request example_options,
                                          on_shutdown = opt_on_shutdown example_options\<rparr>"
    using configure_server_results [where conn = ?server and opts = example_options and sd = ?unset]
      h1 h2 h5 by blast
  have r2: "aws_http_connection_configure_server (Some ?client) (Some example_options)
              = (AWS_OP_ERR AWS_ERROR_INVALID_STATE, Some ?client)"
    using configure_server_results [where conn = ?client and opts = example_options] h1 h3 by blast
  have r3: "aws_http_connection_configure_server (Some ?server)
              (Some (example_options\<lparr>opt_on_incoming_request := None\<rparr>))
              = (AWS_OP_ERR AWS_ERROR_INVALID_ARGUMENT, Some ?server)"
    using configure_server_results [where conn = ?server
        and opts = "example_options\<lparr>opt_on_incoming_request := None\<rparr>"] h4 by blast
  have r1': "\<exists>conn'. aws_http_connection_configure_server (Some ?server) (Some example_options)
                       = (AWS_OP_SUCCESS, Some conn')
              \<and> server_data conn' = Some \<lparr>on_incoming_request = Some 4, on_shutdown = Some 5\<rparr>"
    using r1 by (simp add: example_options_def)
  from h1 h2 r1' h3 r2 h4 r3 show ?thesis by blast
qed

text \<open>
  Claim C10. Every successful \<open>configure_server\<close> replaces the connection's
  \<open>user_data\<close> by the options' \<open>connection_user_data\<close>, whatever was installed
  before; a failing call leaves the connection, and so its \<open>user_data\<close>, untouched.
\<close>

theorem configure_server_overwrites_user_data:
  "(fst (aws_http_connection_configure_server connection options) = AWS_OP_SUCCESS \<longrightarrow>
      (\<exists>conn opts conn'. connection = Some conn \<and> options = Some opts
         \<and> snd (aws_http_connection_configure_server connection options) = Some conn'
         \<and> user_data conn' = connection_user_data opts))
   \<and> (fst (aws_http_connection_configure_server connection options) \<noteq> AWS_OP_SUCCESS \<longrightarrow>
        snd (aws_http_connection_configure_server connection options) = connection)"
  by (auto simp add: aws_http_connection_configure_server_def split: option.splits)

theorem configure_server_overwrites_user_data_witness:
  "fst (aws_http_connection_configure_server
          (Some ((aws_http_connection_new_http1_1 True 0)\<lparr>user_data := Some 7\<rparr>)) (Some example_options))
     = AWS_OP_SUCCESS
   \<and> (\<exists>conn'. snd (aws_http_connection_configure_server
                      (Some ((aws_http_connection_new_http1_1 True 0)\<lparr>user_data := Some 7\<rparr>))
                      (Some example_options)) = Some conn'
         \<and> user_data conn' = Some 9)
   \<and> fst (aws_http_connection_configure_server
            (Some ((aws_http_connection_new_http1_1 False 0)\<lparr>user_data := Some 7\<rparr>)) (Some example_options))
       \<noteq> AWS_OP_SUCCESS
   \<and> snd (aws_http_connection_configure_server
            (Some ((aws_http_connection_new_http1_1 False 0)\<lparr>user_data := Some 7\<rparr>)) (Some example_options))
       = Some ((aws_http_connection_new_http1_1 False 0)\<lparr>user_data := Some 7\<rparr>)"
proof -
  let ?server = "(aws_http_connection_new_http1_1 True 0)\<lparr>user_data := Some 7\<rparr>"
  let ?client = "(aws_http_connection_new_http1_1 False 0)\<lparr>user_data := Some 7\<rparr>"
  have ok: "fst (aws_http_connection_configure_server (Some ?server) (Some example_options)) = AWS_OP_SUCCESS"
    by (simp add: aws_http_connection_configure_server_def aws_http_connection_new_http1_1_def
        example_options_def)
  have bad: "fst (aws_http_connection_configure_server (Some ?client) (Some example_options)) \<noteq> AWS_OP_SUCCESS"
    by (simp add: aws_http_connection_configure_server_def aws_http_connection_new_http1_1_def
        example_options_def)
  have r1: "\<exists>conn'. snd (aws_http_connection_configure_server (Some ?server) (Some example_options)) = Some conn'
              \<and> user_data conn' = connection_user_data example_options"
    using configure_server_overwrites_user_data [of "Some ?server" "Some example_options"] ok by auto
  then have r1': "\<exists>conn'. snd (aws_http_connection_configure_server (Some ?server) (Some example_options))
                             = Some conn' \<and> user_data conn' = Some 9"
    by (simp add: example_options_def)
  have r2: "snd (aws_http_connection_configure_server (Some ?client) (Some example_options)) = Some ?client"
    using configure_server_overwrites_user_data [of "Some ?client" "Some example_options"] bad by blast
  from ok r1' bad r2 show ?thesis by blast
qed

subsection \<open>Releasing a server\<close>

lemma shutdown_all_channels_events:
  "shutdown_all_channels m w =
     w\<lparr>events := events w @ map (\<lambda>(ch, c). Channel_shutdown ch AWS_ERROR_HTTP_CONNECTION_CLOSED) m\<rparr>"
  by (induction m w rule: shutdown_all_channels.induct) (simp_all add: emit_def)

text \<open>
  Claim C9. The first \<open>server_release\<close> sets \<open>is_shutting_down\<close> and, between
  taking and dropping the lock, requests shutdown with connection-closed on every
  channel of the registry, then has the listening socket destroyed. A call that finds
  the flag set only takes and drops the lock; a call with a null server does nothing;
  so a second call after any call changes nothing and touches no channel or socket.
\<close>

theorem server_release_idempotent:
  "(\<not> is_shutting_down srv \<longrightarrow>
      aws_http_server_release (Some srv) w =
        (Some (srv\<lparr>is_shutting_down := True\<rparr>),
         w\<lparr>events := events w @ [Mutex_lock]
              @ map (\<lambda>(ch, c). Channel_shutdown ch AWS_ERROR_HTTP_CONNECTION_CLOSED) (channel_to_connection_map srv)
              @ [Mutex_unlock, Destroy_socket_listener]\<rparr>))
   \<and> (is_shutting_down srv \<longrightarrow>
      aws_http_server_release (Some srv) w = (Some srv, w\<lparr>events := events w @ [Mutex_lock, Mutex_unlock]\<rparr>))
   \<and> aws_http_server_release None w = (None, w)
   \<and> (\<forall>srv1 w1 w2. aws_http_server_release (Some srv) w = (srv1, w1) \<longrightarrow>
        aws_http_server_release srv1 w2 = (srv1, w2\<lparr>events := events w2 @ [Mutex_lock, Mutex_unlock]\<rparr>))"
  by (auto simp add: aws_http_server_release_def Let_def emit_def shutdown_all_channels_events)

theorem server_release_idempotent_witness:
  "\<not> is_shutting_down example_server
   \<and> aws_http_server_release (Some example_server) empty_world
       = (Some (example_server\<lparr>is_shutting_down := True\<rparr>),
          \<lparr>last_error = AWS_ERROR_SUCCESS,
           events = [Mutex_lock,
                     Channel_shutdown 5 AWS_ERROR_HTTP_CONNECTION_CLOSED,
                     Channel_shutdown 6 AWS_ERROR_HTTP_CONNECTION_CLOSED,
                     Mutex_unlock, Destroy_socket_listener]\<rparr>)
   \<and> is_shutting_down (example_server\<lparr>is_shutting_down := True\<rparr>)
   \<and> aws_http_server_release (Some (example_server\<lparr>is_shutting_down := True\<rparr>)) empty_world
       = (Some (example_server\<lparr>is_shutting_down := True\<rparr>),
          \<lparr>last_error = AWS_ERROR_SUCCESS, events = [Mutex_lock, Mutex_unlock]\<rparr>)"
  using server_release_idempotent [of example_server empty_world]
    server_release_idempotent [of "example_server\<lparr>is_shutting_down := True\<rparr>" empty_world]
  by (simp add: example_server_def empty_world_def)

subsection \<open>Events of the factory and of a release\<close>

lemma s_connection_new_error_events:
  "\<exists>fe. events (s_connection_new_error channel have_slot slot_handler connection w) = events w @ fe
        \<and> (\<forall>ev\<in>set fe. \<not> is_user_callback ev)"
proof (cases have_slot)
  case False
  then have "events (s_connection_new_error channel have_slot slot_handler connection w) = events w @ []"
    by (simp add: s_connection_new_error_def)
  then show ?thesis by (intro exI [of _ "[]"]) simp
next
  case True
  show ?thesis
  proof (cases "\<not> slot_handler \<and> connection \<noteq> None")
    case True
    with \<open>have_slot\<close>
    have "events (s_connection_new_error channel have_slot slot_handler connection w)
            = events w @ [Channel_handler_destroy, Channel_slot_remove channel]"
      by (simp add: s_connection_new_error_def emit_def)
    then show ?thesis
      by (intro exI [of _ "[Channel_handler_destroy, Channel_slot_remove channel]"])
        (simp add: is_user_callback_def is_on_setup_def is_on_shutdown_def is_on_incoming_connection_def)
  next
    case False
    with \<open>have_slot\<close>
    have "events (s_connection_new_error channel have_slot slot_handler connection w)
            = events w @ [Channel_slot_remove channel]"
      by (auto simp add: s_connection_new_error_def emit_def)
    then show ?thesis
      by (intro exI [of _ "[Channel_slot_remove channel]"])
        (simp add: is_user_callback_def is_on_setup_def is_on_shutdown_def is_on_incoming_connection_def)
  qed
qed

lemma s_connection_new_success:
  assumes "s_connection_new env channel is_server is_using_tls initial_window_size w = Done (Some connection, w1)"
  shows "w1 = w\<lparr>events := events w @ [Channel_acquire_hold channel]\<rparr>"
    and "connection = (aws_http_connection_new_http1_1 is_server initial_window_size)\<lparr>channel_slot := channel\<rparr>"
  using assms
  by (auto simp add: s_connection_new_def emit_def Let_def
      split: option.splits sum.splits aws_http_version.splits)

lemma s_connection_new_failure:
  assumes "s_connection_new env channel is_server is_using_tls initial_window_size w = Done (None, w1)"
  shows "\<exists>fe. events w1 = events w @ fe \<and> (\<forall>ev\<in>set fe. \<not> is_user_callback ev)"
proof -
  have *: "\<exists>fe. events (s_connection_new_error channel a b c (aws_raise_error e w)) = events w @ fe
            \<and> (\<forall>ev\<in>set fe. \<not> is_user_callback ev)" for a b c e
  proof -
    obtain fe where "events (s_connection_new_error channel a b c (aws_raise_error e w))
                      = events (aws_raise_error e w) @ fe"
      and "\<forall>ev\<in>set fe. \<not> is_user_callback ev"
      using s_connection_new_error_events by blast
    then show ?thesis by (auto simp add: aws_raise_error_def)
  qed
  show ?thesis
    using assms *
    by (auto simp add: s_connection_new_def Let_def
        split: option.splits sum.splits aws_http_version.splits)
qed

lemma release_events:
  assumes "aws_http_connection_release debug_build connection w = Done (connection', w')"
  shows "\<exists>re. events w' = events w @ re \<and> (\<forall>ev\<in>set re. \<not> is_user_callback ev)"
  using assms
  by (auto simp add: aws_http_connection_release_def Let_def emit_def is_user_callback_def is_on_setup_def
      is_on_shutdown_def is_on_incoming_connection_def split: if_splits)

subsection \<open>The accept callback\<close>

text \<open>
  Claim C8. When the accept callback has created the connection, the server is not
  shutting down, the registry accepted the entry, and \<open>on_incoming_connection\<close> has
  returned with \<open>on_incoming_request\<close> still unset, the callback raises
  reaction-required, requests channel shutdown with that code and then releases the
  connection as the user callback left it; \<open>on_incoming_connection\<close> has been
  invoked once, with the connection and code 0, and is not invoked again.
\<close>

theorem accept_setup_unconfigured:
  assumes new: "s_connection_new env ch True (srv_is_using_tls server) (srv_initial_window_size server) w
                  = Done (Some connection, w1)"
    and live: "\<not> is_shutting_down server"
    and put: "put_fails = None"
    and sd: "server_data (user_cb connection) = Some sd"
    and unset: "on_incoming_request sd = None"
  shows "s_server_bootstrap_on_accept_channel_setup debug_build env put_fails user_cb server
           AWS_ERROR_SUCCESS (Some ch) w
         = (case aws_http_connection_release debug_build (user_cb connection)
                   (w\<lparr>last_error := AWS_ERROR_HTTP_REACTION_REQUIRED,
                      events := events w @ [Channel_acquire_hold ch, Mutex_lock, Mutex_unlock,
                                           On_incoming_connection (Some connection) AWS_ERROR_SUCCESS,
                                           Channel_shutdown ch AWS_ERROR_HTTP_REACTION_REQUIRED]\<rparr>) of
              Aborted \<Rightarrow> Aborted
            | Done (connection', w') \<Rightarrow>
                Done (server\<lparr>channel_to_connection_map :=
                               hash_table_put (channel_to_connection_map server) ch connection\<rparr>,
                      Some connection', w'))
     \<and> (\<forall>server' connection' w'.
          s_server_bootstrap_on_accept_channel_setup debug_build env put_fails user_cb server
            AWS_ERROR_SUCCESS (Some ch) w = Done (server', connection', w') \<longrightarrow>
          last_error w' = AWS_ERROR_HTTP_REACTION_REQUIRED
          \<and> length (filter is_on_incoming_connection (events w'))
              = length (filter is_on_incoming_connection (events w)) + 1)"
proof -
  let ?w2 = "w\<lparr>last_error := AWS_ERROR_HTTP_REACTION_REQUIRED,
              events := events w @ [Channel_acquire_hold ch, Mutex_lock, Mutex_unlock,
                                   On_incoming_connection (Some connection) AWS_ERROR_SUCCESS,
                                   Channel_shutdown ch AWS_ERROR_HTTP_REACTION_REQUIRED]\<rparr>"
  let ?server' = "server\<lparr>channel_to_connection_map :=
                               hash_table_put (channel_to_connection_map server) ch connection\<rparr>"
  have w1: "w1 = w\<lparr>events := events w @ [Channel_acquire_hold ch]\<rparr>"
    by (rule s_connection_new_success(1) [OF new])
  have run: "s_server_bootstrap_on_accept_channel_setup debug_build env put_fails user_cb server
           AWS_ERROR_SUCCESS (Some ch) w
         = (case aws_http_connection_release debug_build (user_cb connection) ?w2 of
              Aborted \<Rightarrow> Aborted
            | Done (connection', w') \<Rightarrow> Done (?server', Some connection', w'))"
    using new live put sd unset
    by (simp add: s_server_bootstrap_on_accept_channel_setup_def
        s_server_bootstrap_on_accept_channel_setup_error_def Let_def emit_def aws_raise_error_def w1)
  have count: "last_error w' = AWS_ERROR_HTTP_REACTION_REQUIRED
          \<and> length (filter is_on_incoming_connection (events w'))
              = length (filter is_on_incoming_connection (events w)) + 1"
    if "s_server_bootstrap_on_accept_channel_setup debug_build env put_fails user_cb server
            AWS_ERROR_SUCCESS (Some ch) w = Done (server', connection', w')"
    for server' connection' w'
  proof -
    from that run obtain c' where rel: "aws_http_connection_release debug_build (user_cb connection) ?w2 = Done (c', w')"
      by (auto split: outcome.splits)
    then have "last_error w' = AWS_ERROR_HTTP_REACTION_REQUIRED"
      by (auto simp add: aws_http_connection_release_def Let_def emit_def split: if_splits)
    moreover obtain re where re: "events w' = events ?w2 @ re" "\<forall>ev\<in>set re. \<not> is_user_callback ev"
      using release_events [OF rel] by blast
    have "filter is_on_incoming_connection re = []"
      using re(2) by (auto simp add: filter_empty_conv is_user_callback_def)
    then have "length (filter is_on_incoming_connection (events w'))
              = length (filter is_on_incoming_connection (events w)) + 1"
      by (simp add: re(1) is_on_incoming_connection_def)
    ultimately show ?thesis by simp
  qed
  from run count show ?thesis by blast
qed

theorem accept_setup_unconfigured_witness:
  "s_connection_new plain_env 5 True (srv_is_using_tls example_server)
       (srv_initial_window_size example_server) empty_world
     = Done (Some ((aws_http_connection_new_http1_1 True 65535)\<lparr>channel_slot := 5\<rparr>),
             \<lparr>last_error = AWS_ERROR_SUCCESS, events = [Channel_acquire_hold 5]\<rparr>)
   \<and> \<not> is_shutting_down example_server
   \<and> server_data ((aws_http_connection_new_http1_1 True 65535)\<lparr>channel_slot := 5\<rparr>)
       = Some \<lparr>on_incoming_request = None, on_shutdown = None\<rparr>
   \<and> s_server_bootstrap_on_accept_channel_setup False plain_env None (\<lambda>c. c) example_server
         AWS_ERROR_SUCCESS (Some 5) empty_world
       = Done (example_server,
               Some ((aws_http_connection_new_http1_1 True 65535)\<lparr>channel_slot := 5, refcount := 0\<rparr>),
               \<lparr>last_error = AWS_ERROR_HTTP_REACTION_REQUIRED,
                events = [Channel_acquire_hold 5, Mutex_lock, Mutex_unlock,
                          On_incoming_connection
                            (Some ((aws_http_connection_new_http1_1 True 65535)\<lparr>channel_slot := 5\<rparr>))
                            AWS_ERROR_SUCCESS,
                          Channel_shutdown 5 AWS_ERROR_HTTP_REACTION_REQUIRED,
                          Channel_shutdown 5 AWS_ERROR_SUCCESS,
                          Channel_release_hold 5]\<rparr>)"
proof -
  let ?conn = "(aws_http_connection_new_http1_1 True 65535)\<lparr>channel_slot := 5\<rparr>"
  have new: "s_connection_new plain_env 5 True (srv_is_using_tls example_server)
       (srv_initial_window_size example_server) empty_world
     = Done (Some ?conn, \<lparr>last_error = AWS_ERROR_SUCCESS, events = [Channel_acquire_hold 5]\<rparr>)"
    by (simp add: s_connection_new_def s_connection_new_version_def plain_env_def example_server_def
        empty_world_def emit_def Let_def)
  have live: "\<not> is_shutting_down example_server"
    by (simp add: example_server_def)
  have sd: "server_data ?conn = Some \<lparr>on_incoming_request = None, on_shutdown = None\<rparr>"
    by (simp add: aws_http_connection_new_http1_1_def)
  have unset: "on_incoming_request \<lparr>on_incoming_request = None, on_shutdown = None\<rparr> = None"
    by simp
  from accept_setup_unconfigured [where user_cb = "\<lambda>c. c" and debug_build = False and put_fails = None,
          OF new live refl sd unset] new live sd
  show ?thesis
    by (simp add: aws_http_connection_release_def aws_http_connection_new_http1_1_def emit_def Let_def
        example_server_def empty_world_def)
qed

subsection \<open>The client connect path\<close>

lemma setup_failed_attempt:
  assumes "bs_on_setup bs = Some f"
    and "client_connect_attempt env bs (Connect_failed e) w = Done w'"
  shows "e \<noteq> AWS_ERROR_SUCCESS \<and> events w' = events w @ [On_setup None e, Bootstrap_mem_release]"
  using assms
  by (auto simp add: client_connect_attempt_def s_client_bootstrap_on_channel_setup_def emit_def
      split: if_splits)

lemma factory_failed_attempt:
  assumes "bs_on_setup bs = Some f"
    and "s_connection_new env ch False (bs_is_using_tls bs) (bs_initial_window_size bs) w = Done (None, w1)"
  shows "client_connect_attempt env bs (Connected ch sc) w =
           Done (w1\<lparr>events := events w1 @ [Channel_shutdown ch (last_error w1),
                                          On_setup None (if sc = AWS_ERROR_SUCCESS then AWS_ERROR_UNKNOWN else sc),
                                          Bootstrap_mem_release]\<rparr>)"
  using assms
  by (simp add: client_connect_attempt_def s_client_bootstrap_on_channel_setup_def
      s_client_bootstrap_on_channel_shutdown_def emit_def Let_def)

lemma setup_succeeded_attempt:
  assumes "bs_on_setup bs = Some f"
    and "s_connection_new env ch False (bs_is_using_tls bs) (bs_initial_window_size bs) w
           = Done (Some connection, w1)"
    and "conn = connection\<lparr>proxy_request_transform := bs_proxy_request_transform bs,
                           user_data := bs_user_data bs\<rparr>"
  shows "client_connect_attempt env bs (Connected ch sc) w =
           Done (w1\<lparr>events := events w1 @ [On_setup (Some conn) AWS_ERROR_SUCCESS]
                     @ (if bs_on_shutdown bs \<noteq> None then [On_shutdown (Some conn) sc] else [])
                     @ [Bootstrap_mem_release]\<rparr>)"
  using assms
  by (simp add: client_connect_attempt_def s_client_bootstrap_on_channel_setup_def
      s_client_bootstrap_on_channel_shutdown_def emit_def Let_def)

text \<open>
  Claim C1, as stated, fails in two ways, both by design. The shutdown callback
  invokes \<open>on_shutdown\<close> only if the caller supplied one, and
  \<open>aws_http_client_connect_internal\<close> requires only \<open>on_setup\<close>: in the first
  attempt below setup succeeds and no \<open>on_shutdown\<close> fires. And when TLS negotiated
  \<open>h2\<close> the factory stops at its fatal assertion: in the second attempt the
  callbacks are reached and no setup event fires at all.
\<close>

theorem client_attempt_without_terminal_events:
  "client_connect_attempt plain_env (example_bootstrap False None) (Connected 5 (AWS_ERROR_OTHER 7)) empty_world
     = Done \<lparr>last_error = AWS_ERROR_SUCCESS,
             events = [Channel_acquire_hold 5,
                       On_setup (Some ((aws_http_connection_new_http1_1 False 65535)
                                        \<lparr>channel_slot := 5, user_data := Some 3\<rparr>)) AWS_ERROR_SUCCESS,
                       Bootstrap_mem_release]\<rparr>
   \<and> filter is_on_shutdown
        [Channel_acquire_hold 5,
         On_setup (Some ((aws_http_connection_new_http1_1 False 65535)
                          \<lparr>channel_slot := 5, user_data := Some 3\<rparr>)) AWS_ERROR_SUCCESS,
         Bootstrap_mem_release] = []
   \<and> client_connect_attempt h2_env (example_bootstrap True (Some 2)) (Connected 5 (AWS_ERROR_OTHER 7)) empty_world
     = Aborted"
  by (simp add: client_connect_attempt_def s_client_bootstrap_on_channel_setup_def
      s_client_bootstrap_on_channel_shutdown_def s_connection_new_def s_connection_new_version_def
      plain_env_def h2_env_def example_bootstrap_def empty_world_def emit_def Let_def
      aws_http_connection_new_http1_1_def is_on_shutdown_def)

text \<open>
  Claim C1, amended. For a bootstrap record with \<open>on_setup\<close> set (as
  \<open>aws_http_client_connect_internal\<close> ensures) and a connect attempt whose callbacks
  run to completion: exactly one \<open>on_setup\<close> event fires, either with no connection
  and a non-zero code or with a connection and code 0, and no user callback fires
  before it; after it, \<open>on_shutdown\<close> fires exactly once, for that connection, if
  setup succeeded and the caller supplied \<open>on_shutdown\<close>, and never otherwise; and
  the shutdown callback of a record whose \<open>on_setup\<close> is still set turns code 0 into
  the unknown error before it invokes \<open>on_setup\<close> with no connection.
\<close>

theorem client_attempt_setup_and_shutdown:
  assumes cb: "bs_on_setup bs = Some f"
    and run: "client_connect_attempt env bs attempt w = Done w'"
  shows "(\<exists>pre c e post.
            events w' = events w @ pre @ [On_setup c e] @ post
            \<and> (\<forall>ev\<in>set pre. \<not> is_user_callback ev)
            \<and> filter is_on_setup post = []
            \<and> ((c = None \<and> e \<noteq> AWS_ERROR_SUCCESS) \<or> (c \<noteq> None \<and> e = AWS_ERROR_SUCCESS))
            \<and> length (filter is_on_shutdown post) = (if c \<noteq> None \<and> bs_on_shutdown bs \<noteq> None then 1 else 0)
            \<and> (\<forall>ev\<in>set post. is_on_shutdown ev \<longrightarrow> (\<exists>sc. ev = On_shutdown c sc)))
       \<and> s_client_bootstrap_on_channel_shutdown bs AWS_ERROR_SUCCESS w
           = w\<lparr>events := events w @ [On_setup None AWS_ERROR_UNKNOWN, Bootstrap_mem_release]\<rparr>"
proof -
  have coerce: "s_client_bootstrap_on_channel_shutdown bs AWS_ERROR_SUCCESS w
           = w\<lparr>events := events w @ [On_setup None AWS_ERROR_UNKNOWN, Bootstrap_mem_release]\<rparr>"
    using cb by (simp add: s_client_bootstrap_on_channel_shutdown_def emit_def)
  have main: "\<exists>pre c e post.
            events w' = events w @ pre @ [On_setup c e] @ post
            \<and> (\<forall>ev\<in>set pre. \<not> is_user_callback ev)
            \<and> filter is_on_setup post = []
            \<and> ((c = None \<and> e \<noteq> AWS_ERROR_SUCCESS) \<or> (c \<noteq> None \<and> e = AWS_ERROR_SUCCESS))
            \<and> length (filter is_on_shutdown post) = (if c \<noteq> None \<and> bs_on_shutdown bs \<noteq> None then 1 else 0)
            \<and> (\<forall>ev\<in>set post. is_on_shutdown ev \<longrightarrow> (\<exists>sc. ev = On_shutdown c sc))"
  proof (cases attempt)
    case (Connect_failed e)
    with setup_failed_attempt [OF cb] run
    have e: "e \<noteq> AWS_ERROR_SUCCESS" and ev: "events w' = events w @ [On_setup None e, Bootstrap_mem_release]"
      by auto
    show ?thesis
      by (rule exI [of _ "[]"], rule exI [of _ None], rule exI [of _ e], rule exI [of _ "[Bootstrap_mem_release]"])
        (simp add: ev e is_on_setup_def is_on_shutdown_def)
  next
    case (Connected ch sc)
    show ?thesis
    proof (cases "s_connection_new env ch False (bs_is_using_tls bs) (bs_initial_window_size bs) w")
      case Aborted
      with run Connected cb show ?thesis
        by (simp add: client_connect_attempt_def s_client_bootstrap_on_channel_setup_def)
    next
      case (Done res)
      obtain r w1 where res: "res = (r, w1)" by (cases res)
      show ?thesis
      proof (cases r)
        case None
        with Done res have new: "s_connection_new env ch False (bs_is_using_tls bs) (bs_initial_window_size bs) w
                                  = Done (None, w1)" by simp
        obtain fe where fe: "events w1 = events w @ fe" "\<forall>ev\<in>set fe. \<not> is_user_callback ev"
          using s_connection_new_failure [OF new] by blast
        let ?e = "if sc = AWS_ERROR_SUCCESS then AWS_ERROR_UNKNOWN else sc"
        have ev: "events w' = events w @ (fe @ [Channel_shutdown ch (last_error w1)]) @ [On_setup None ?e]
                               @ [Bootstrap_mem_release]"
          using factory_failed_attempt [OF cb new, of sc] run Connected by (auto simp add: fe(1))
        show ?thesis
          apply (rule exI [of _ "fe @ [Channel_shutdown ch (last_error w1)]"])
          apply (rule exI [of _ None])
          apply (rule exI [of _ ?e])
          apply (rule exI [of _ "[Bootstrap_mem_release]"])
          using fe(2)
          apply (simp add: ev is_on_setup_def is_on_shutdown_def is_user_callback_def is_on_incoming_connection_def)
          done
      next
        case (Some connection)
        with Done res have new: "s_connection_new env ch False (bs_is_using_tls bs) (bs_initial_window_size bs) w
                                  = Done (Some connection, w1)" by simp
        let ?conn = "connection\<lparr>proxy_request_transform := bs_proxy_request_transform bs,
                                user_data := bs_user_data bs\<rparr>"
        let ?post = "(if bs_on_shutdown bs \<noteq> None then [On_shutdown (Some ?conn) sc] else [])
                     @ [Bootstrap_mem_release]"
        have w1: "events w1 = events w @ [Channel_acquire_hold ch]"
          using s_connection_new_success(1) [OF new] by simp
        have ev: "events w' = events w @ [Channel_acquire_hold ch] @ [On_setup (Some ?conn) AWS_ERROR_SUCCESS] @ ?post"
          using setup_succeeded_attempt [OF cb new refl, of sc] run Connected by (auto simp add: w1)
        show ?thesis
          apply (rule exI [of _ "[Channel_acquire_hold ch]"])
          apply (rule exI [of _ "Some ?conn"])
          apply (rule exI [of _ AWS_ERROR_SUCCESS])
          apply (rule exI [of _ ?post])
          apply (simp add: ev is_on_setup_def is_on_shutdown_def is_user_callback_def is_on_incoming_connection_def)
          done
      qed
    qed
  qed
  from main coerce show ?thesis by (rule conjI)
qed

theorem client_attempt_setup_and_shutdown_witness:
  "bs_on_setup (example_bootstrap False (Some 2)) = Some 1
   \<and> client_connect_attempt plain_env (example_bootstrap False (Some 2)) (Connected 5 (AWS_ERROR_OTHER 7))
         empty_world
       = Done \<lparr>last_error = AWS_ERROR_SUCCESS,
               events = [Channel_acquire_hold 5,
                         On_setup (Some ((aws_http_connection_new_http1_1 False 65535)
                                          \<lparr>channel_slot := 5, user_data := Some 3\<rparr>)) AWS_ERROR_SUCCESS,
                         On_shutdown (Some ((aws_http_connection_new_http1_1 False 65535)
                                          \<lparr>channel_slot := 5, user_data := Some 3\<rparr>)) (AWS_ERROR_OTHER 7),
                         Bootstrap_mem_release]\<rparr>
   \<and> s_client_bootstrap_on_channel_shutdown (example_bootstrap False (Some 2)) AWS_ERROR_SUCCESS empty_world
       = \<lparr>last_error = AWS_ERROR_SUCCESS,
          events = [On_setup None AWS_ERROR_UNKNOWN, Bootstrap_mem_release]\<rparr>"
proof -
  have cb: "bs_on_setup (example_bootstrap False (Some 2)) = Some 1"
    by (simp add: example_bootstrap_def)
  have run: "client_connect_attempt plain_env (example_bootstrap False (Some 2)) (Connected 5 (AWS_ERROR_OTHER 7))
         empty_world
       = Done \<lparr>last_error = AWS_ERROR_SUCCESS,
               events = [Channel_acquire_hold 5,
                         On_setup (Some ((aws_http_connection_new_http1_1 False 65535)
                                          \<lparr>channel_slot := 5, user_data := Some 3\<rparr>)) AWS_ERROR_SUCCESS,
                         On_shutdown (Some ((aws_http_connection_new_http1_1 False 65535)
                                          \<lparr>channel_slot := 5, user_data := Some 3\<rparr>)) (AWS_ERROR_OTHER 7),
                         Bootstrap_mem_release]\<rparr>"
    by (simp add: client_connect_attempt_def s_client_bootstrap_on_channel_setup_def
        s_client_bootstrap_on_channel_shutdown_def s_connection_new_def s_connection_new_version_def
        plain_env_def example_bootstrap_def empty_world_def emit_def Let_def
        aws_http_connection_new_http1_1_def)
  from client_attempt_setup_and_shutdown [OF cb run] cb run show ?thesis
    by (simp add: empty_world_def)
qed

end
